theory Spec2Isabelle
  imports Main "HOL-Library.Char_ord" "HOL-Library.List_Lexorder" "HOL-Library.Sublist"
begin

section \<open>Strings and paths (Go's \<open>strings\<close> and \<open>path/filepath\<close> on Unix)\<close>

text \<open>
  A Go string is a byte sequence; it is modelled as \<^typ>\<open>string\<close>. The functions of
  this section are the ones of the Go standard library that \<open>resigner.go\<close> calls on
  paths, written after their documented behaviour on Unix (separator \<open>/\<close>, no volume
  names).
\<close>

text \<open>\<open>strings.Split(s, "/")\<close>: the pieces of \<open>s\<close> between separators.\<close>

primrec split_sep :: "string \<Rightarrow> string list" where
  "split_sep [] = [[]]"
| "split_sep (c # cs) =
     (if c = CHR ''/'' then [] # split_sep cs
      else case split_sep cs of [] \<Rightarrow> [[c]] | x # xs \<Rightarrow> (c # x) # xs)"

text \<open>\<open>strings.Join(elems, "/")\<close>.\<close>

fun join_sep :: "string list \<Rightarrow> string" where
  "join_sep [] = []"
| "join_sep [x] = x"
| "join_sep (x # y # ys) = x @ CHR ''/'' # join_sep (y # ys)"

text \<open>
  One step of \<open>filepath.Clean\<close>: the elements kept so far are a stack (last element
  first). An empty element and \<open>.\<close> are dropped; \<open>..\<close> removes the element before it,
  is dropped at the root of a rooted path and is kept at the start of a relative one.
\<close>

definition clean_step :: "bool \<Rightarrow> string list \<Rightarrow> string \<Rightarrow> string list" where
  "clean_step rooted st c =
     (if c = [] \<or> c = ''.'' then st
      else if c = ''..'' then
        (case st of
           [] \<Rightarrow> if rooted then [] else [''..'']
         | x # xs \<Rightarrow> if x = ''..'' then ''..'' # st else xs)
      else c # st)"

definition clean_elems :: "bool \<Rightarrow> string \<Rightarrow> string list" where
  "clean_elems rooted path = rev (foldl (clean_step rooted) [] (split_sep path))"

definition is_rooted :: "string \<Rightarrow> bool" where
  "is_rooted path = (take 1 path = ''/'')"

definition Clean :: "string \<Rightarrow> string" where
  "Clean path =
     (let rooted = is_rooted path;
          out = (if rooted then ''/'' else []) @ join_sep (clean_elems rooted path)
      in if out = [] then ''.'' else out)"

text \<open>
  \<open>filepath.Join\<close> of two elements: empty elements are ignored, the result is cleaned,
  and joining only empty elements gives the empty string.
\<close>

definition Join :: "string \<Rightarrow> string \<Rightarrow> string" where
  "Join a b =
     (if a = [] then (if b = [] then [] else Clean b)
      else Clean (a @ ''/'' @ b))"

text \<open>\<open>filepath.Dir\<close>: everything up to the last separator, cleaned.\<close>

definition Dir :: "string \<Rightarrow> string" where
  "Dir path = Clean (rev (dropWhile (\<lambda>c. c \<noteq> CHR ''/'') (rev path)))"

text \<open>\<open>filepath.Base\<close>: the last element, after trailing separators are stripped.\<close>

definition Base :: "string \<Rightarrow> string" where
  "Base path =
     (if path = [] then ''.''
      else
        let p = dropWhile (\<lambda>c. c = CHR ''/'') (rev path);
            b = rev (takeWhile (\<lambda>c. c \<noteq> CHR ''/'') p)
        in if b = [] then ''/'' else b)"

text \<open>
  \<open>filepath.Ext\<close>: the suffix beginning at the final dot of the final element; the scan
  runs from the end of the string and stops at a separator.
\<close>

fun ext_scan :: "string \<Rightarrow> string \<Rightarrow> string" where
  "ext_scan [] acc = []"
| "ext_scan (c # cs) acc =
     (if c = CHR ''/'' then []
      else if c = CHR ''.'' then c # acc
      else ext_scan cs (c # acc))"

definition Ext :: "string \<Rightarrow> string" where
  "Ext path = ext_scan (rev path) []"

text \<open>
  \<open>filepath.Rel\<close>: both paths are cleaned; a rooted and a relative path cannot be
  related; the common leading elements are dropped, each element left of the base is a
  step up.
\<close>

fun strip_common :: "string list \<Rightarrow> string list \<Rightarrow> string list \<times> string list" where
  "strip_common (b # bs) (t # ts) =
     (if b = t then strip_common bs ts else (b # bs, t # ts))"
| "strip_common bs ts = (bs, ts)"

definition path_elems :: "string \<Rightarrow> string list" where
  "path_elems p = filter (\<lambda>e. e \<noteq> []) (split_sep p)"

definition Rel :: "string \<Rightarrow> string \<Rightarrow> string option" where
  "Rel basepath targpath =
     (let base = Clean basepath; targ = Clean targpath in
      if targ = base then Some ''.''
      else
        let base' = (if base = ''.'' then [] else base) in
        if is_rooted base' \<noteq> is_rooted targ then None
        else
          (case strip_common (path_elems base') (path_elems targ) of
             ([], trem) \<Rightarrow> Some (join_sep trem)
           | (b # brem, trem) \<Rightarrow>
               if b = ''..'' then None
               else Some (join_sep (replicate (Suc (length brem)) ''..'' @ trem))))"

text \<open>\<open>strings.ToLower\<close> on ASCII letters (other bytes are left as they are).\<close>

definition lower_char :: "char \<Rightarrow> char" where
  "lower_char c =
     (case map_of (zip ''ABCDEFGHIJKLMNOPQRSTUVWXYZ'' ''abcdefghijklmnopqrstuvwxyz'') c of
        None \<Rightarrow> c
      | Some l \<Rightarrow> l)"

definition ToLower :: "string \<Rightarrow> string" where
  "ToLower s = map lower_char s"

text \<open>\<open>strings.TrimSuffix\<close>.\<close>

definition TrimSuffix :: "string \<Rightarrow> string \<Rightarrow> string" where
  "TrimSuffix s suff =
     (if length suff \<le> length s \<and> drop (length s - length suff) s = suff
      then take (length s - length suff) s else s)"

text \<open>The verb \<open>%d\<close> of \<open>fmt.Sprintf\<close> on a non-negative integer: its decimal digits.\<close>

definition digit_char :: "nat \<Rightarrow> char" where
  "digit_char d = ''0123456789'' ! d"

fun digits :: "nat \<Rightarrow> string" where
  "digits n =
     (if n < 10 then [digit_char n]
      else digits (n div 10) @ [digit_char (n mod 10)])"

declare digits.simps [simp del]


section \<open>The filesystem\<close>

text \<open>
  The filesystem is a tree of regular files and directories. A directory holds its
  entries in the order \<open>os.ReadDir\<close> and \<open>filepath.Walk\<close> read them: sorted by file name.
  The content of a file is a byte string, or a zip archive given by its entries (the
  encoding of archives is not modelled). Permissions, links and devices are left out,
  so the only errors of a system call are the structural ones below. Paths are resolved
  from the root of the tree, which is also the working directory.
\<close>

datatype content = Raw string | Zip "(string \<times> content option) list"

datatype node = FileNode content | DirNode "(string \<times> node) list"

datatype errno = ENOENT | ENOTDIR | EISDIR

datatype error =
    Errorf string
  | Wrapf string error
  | PathError string string errno
  | ExitError
  | ZipError

text \<open>The elements a path resolves to, from the root.\<close>

definition resolve :: "string \<Rightarrow> string list" where
  "resolve path = clean_elems True path"

fun lookup_at :: "node \<Rightarrow> string list \<Rightarrow> errno + node" where
  "lookup_at nd [] = Inr nd"
| "lookup_at (FileNode c) (e # es) = Inl ENOTDIR"
| "lookup_at (DirNode ds) (e # es) =
     (case map_of ds e of None \<Rightarrow> Inl ENOENT | Some ch \<Rightarrow> lookup_at ch es)"

text \<open>\<open>os.Stat\<close> and \<open>os.Lstat\<close> (there are no links): the node at a path.\<close>

definition Stat :: "node \<Rightarrow> string \<Rightarrow> error + node" where
  "Stat fs path =
     (if path = [] then Inl (PathError ''stat'' path ENOENT)
      else case lookup_at fs (resolve path) of
             Inl e \<Rightarrow> Inl (PathError ''stat'' path e)
           | Inr nd \<Rightarrow> Inr nd)"

text \<open>\<open>os.IsNotExist\<close>: true of \<open>ENOENT\<close> only.\<close>

fun IsNotExist :: "error + 'a \<Rightarrow> bool" where
  "IsNotExist (Inl (PathError _ _ ENOENT)) = True"
| "IsNotExist _ = False"

fun is_dir :: "node \<Rightarrow> bool" where
  "is_dir (DirNode _) = True"
| "is_dir (FileNode _) = False"

text \<open>
  \<open>filepath.Walk\<close>: the nodes below a root in the order they are visited, each with the
  path handed to the callback. A directory is visited before its entries, the entries
  in name order, and the path of an entry is \<open>Join\<close> of the directory's path and the
  entry's name. The root is visited under the path as given.
\<close>

fun walk :: "string \<Rightarrow> node \<Rightarrow> (string \<times> node) list" where
  "walk path (FileNode c) = [(path, FileNode c)]"
| "walk path (DirNode es) =
     (path, DirNode es) # concat (map (\<lambda>(name, child). walk (Join path name) child) es)"


text \<open>
  Writing an entry into a directory keeps the name order: an entry of the same name is
  replaced, a new one is inserted at its place.
\<close>

fun put_entry :: "string \<Rightarrow> node \<Rightarrow> (string \<times> node) list \<Rightarrow> (string \<times> node) list" where
  "put_entry n v [] = [(n, v)]"
| "put_entry n v ((m, u) # es) =
     (if n = m then (n, v) # es
      else if n < m then (n, v) # (m, u) # es
      else (m, u) # put_entry n v es)"

text \<open>
  \<open>os.MkdirAll\<close>: creates the directory and every missing parent; succeeds when the
  directory is there already; fails when the path or one of its parents is a file. A
  failure is found at the deepest existing parent, before anything is created.
\<close>

fun mkdir_all_at :: "string list \<Rightarrow> node \<Rightarrow> errno + node" where
  "mkdir_all_at p (FileNode c) = Inl ENOTDIR"
| "mkdir_all_at [] (DirNode ds) = Inr (DirNode ds)"
| "mkdir_all_at (e # es) (DirNode ds) =
     (case mkdir_all_at es (case map_of ds e of None \<Rightarrow> DirNode [] | Some ch \<Rightarrow> ch) of
        Inl err \<Rightarrow> Inl err
      | Inr ch' \<Rightarrow> Inr (DirNode (put_entry e ch' ds)))"

definition MkdirAll :: "node \<Rightarrow> string \<Rightarrow> error + node" where
  "MkdirAll fs path =
     (if path = [] then Inl (PathError ''mkdir'' path ENOENT)
      else case mkdir_all_at (resolve path) fs of
             Inl e \<Rightarrow> Inl (PathError ''mkdir'' path e)
           | Inr fs' \<Rightarrow> Inr fs')"

text \<open>
  Opening a file with \<open>O_WRONLY|O_CREATE|O_TRUNC\<close> (as \<open>os.Create\<close>, \<open>os.WriteFile\<close> and
  the \<open>os.OpenFile\<close> of \<open>unzip\<close> do) and writing the content: the parent must be a
  directory, the path must not be one.
\<close>

fun create_at :: "string list \<Rightarrow> content \<Rightarrow> node \<Rightarrow> errno + node" where
  "create_at [] c nd = Inl EISDIR"
| "create_at (e # es) c (FileNode d) = Inl ENOTDIR"
| "create_at [e] c (DirNode ds) =
     (case map_of ds e of
        Some (DirNode x) \<Rightarrow> Inl EISDIR
      | _ \<Rightarrow> Inr (DirNode (put_entry e (FileNode c) ds)))"
| "create_at (e # e' # es) c (DirNode ds) =
     (case map_of ds e of
        None \<Rightarrow> Inl ENOENT
      | Some ch \<Rightarrow>
          (case create_at (e' # es) c ch of
             Inl err \<Rightarrow> Inl err
           | Inr ch' \<Rightarrow> Inr (DirNode (put_entry e ch' ds))))"

definition WriteFile :: "node \<Rightarrow> string \<Rightarrow> content \<Rightarrow> error + node" where
  "WriteFile fs path c =
     (if path = [] then Inl (PathError ''open'' path ENOENT)
      else case create_at (resolve path) c fs of
             Inl e \<Rightarrow> Inl (PathError ''open'' path e)
           | Inr fs' \<Rightarrow> Inr fs')"

text \<open>Reading a file to its end; a directory cannot be read.\<close>

definition ReadFile :: "node \<Rightarrow> string \<Rightarrow> error + content" where
  "ReadFile fs path =
     (case Stat fs path of
        Inl e \<Rightarrow> Inl e
      | Inr (FileNode c) \<Rightarrow> Inr c
      | Inr (DirNode ds) \<Rightarrow> Inl (PathError ''read'' path EISDIR))"

text \<open>\<open>os.ReadDir\<close>: the names of the entries of a directory, sorted.\<close>

definition ReadDir :: "node \<Rightarrow> string \<Rightarrow> error + string list" where
  "ReadDir fs path =
     (case Stat fs path of
        Inl e \<Rightarrow> Inl e
      | Inr (FileNode c) \<Rightarrow> Inl (PathError ''readdir'' path ENOTDIR)
      | Inr (DirNode ds) \<Rightarrow> Inr (map fst ds))"

text \<open>
  \<open>os.RemoveAll\<close>: removes the path and everything below it; a path that is not there
  is no error. Both callers drop the error, so only the filesystem is returned. The
  root itself cannot be removed, its entries are.
\<close>

fun remove_all_at :: "string list \<Rightarrow> node \<Rightarrow> node" where
  "remove_all_at p (FileNode c) = FileNode c"
| "remove_all_at [] (DirNode ds) = DirNode []"
| "remove_all_at [e] (DirNode ds) = DirNode (filter (\<lambda>d. fst d \<noteq> e) ds)"
| "remove_all_at (e # e' # es) (DirNode ds) =
     (case map_of ds e of
        None \<Rightarrow> DirNode ds
      | Some ch \<Rightarrow> DirNode (put_entry e (remove_all_at (e' # es) ch) ds))"

definition RemoveAll :: "node \<Rightarrow> string \<Rightarrow> node" where
  "RemoveAll fs path = (if path = [] then fs else remove_all_at (resolve path) fs)"


section \<open>Helper functions of \<open>resigner.go\<close>\<close>

text \<open>
  The helpers change the filesystem step by step and stop at the first error, so each
  returns the error (if any) together with the filesystem as it is then.
\<close>

text \<open>
  \<open>copyFile\<close>: the source is opened, the destination is created (and truncated), then
  the bytes are copied from the source as it is at that moment.
\<close>

definition copyFile :: "string \<Rightarrow> string \<Rightarrow> node \<Rightarrow> error option \<times> node" where
  "copyFile src dst fs =
     (case Stat fs src of
        Inl e \<Rightarrow> (Some e, fs)
      | Inr opened \<Rightarrow>
          (case WriteFile fs dst (Raw []) of
             Inl e \<Rightarrow> (Some e, fs)
           | Inr fs1 \<Rightarrow>
               (case ReadFile fs1 src of
                  Inl e \<Rightarrow> (Some e, fs1)
                | Inr c \<Rightarrow>
                    (case WriteFile fs1 dst c of
                       Inl e \<Rightarrow> (Some e, fs1)
                     | Inr fs2 \<Rightarrow> (None, fs2)))))"

text \<open>\<open>fmt.Errorf\<close> of the error of \<open>filepath.Rel\<close>.\<close>

definition rel_error :: "string \<Rightarrow> string \<Rightarrow> error" where
  "rel_error base targ = Errorf (''Rel: can't make '' @ targ @ '' relative to '' @ base)"

text \<open>The callback of \<open>copyDir\<close>, applied to one visited node.\<close>

definition copyDir_visit ::
  "string \<Rightarrow> string \<Rightarrow> string \<times> node \<Rightarrow> node \<Rightarrow> error option \<times> node" where
  "copyDir_visit src dst v fs =
     (case v of (path, info) \<Rightarrow>
        (case Rel src path of
           None \<Rightarrow> (Some (rel_error src path), fs)
         | Some relPath \<Rightarrow>
             let targetPath = Join dst relPath in
             if is_dir info then
               (case MkdirAll fs targetPath of
                  Inl e \<Rightarrow> (Some e, fs)
                | Inr fs' \<Rightarrow> (None, fs'))
             else copyFile path targetPath fs))"

fun copyDir_loop ::
  "string \<Rightarrow> string \<Rightarrow> (string \<times> node) list \<Rightarrow> node \<Rightarrow> error option \<times> node" where
  "copyDir_loop src dst [] fs = (None, fs)"
| "copyDir_loop src dst (v # vs) fs =
     (case copyDir_visit src dst v fs of
        (Some e, fs') \<Rightarrow> (Some e, fs')
      | (None, fs') \<Rightarrow> copyDir_loop src dst vs fs')"

text \<open>
  \<open>copyDir\<close>: the walk visits the source as it is when the copy starts (the callers
  never copy a tree into itself).
\<close>

definition copyDir :: "string \<Rightarrow> string \<Rightarrow> node \<Rightarrow> error option \<times> node" where
  "copyDir src dst fs =
     (case Stat fs src of
        Inl e \<Rightarrow> (Some e, fs)
      | Inr root \<Rightarrow> copyDir_loop src dst (walk src root) fs)"

text \<open>
  A zip entry is a name and a body; the body is missing when the entry's attributes
  say directory. \<open>f.FileInfo().IsDir()\<close> also holds of every name ending in a slash.
\<close>

definition zip_is_dir :: "string \<times> content option \<Rightarrow> bool" where
  "zip_is_dir f = (snd f = None \<or> (fst f \<noteq> [] \<and> last (fst f) = CHR ''/''))"

text \<open>One iteration of the loop of \<open>unzip\<close>.\<close>

definition unzip_entry ::
  "string \<Rightarrow> string \<times> content option \<Rightarrow> node \<Rightarrow> error option \<times> node" where
  "unzip_entry dest f fs =
     (let fpath = Join dest (fst f) in
      if zip_is_dir f then
        (case MkdirAll fs fpath of
           Inl e \<Rightarrow> (None, fs)
         | Inr fs' \<Rightarrow> (None, fs'))
      else
        (case MkdirAll fs (Dir fpath) of
           Inl e \<Rightarrow> (Some e, fs)
         | Inr fs1 \<Rightarrow>
             (case WriteFile fs1 fpath (case snd f of None \<Rightarrow> Raw [] | Some c \<Rightarrow> c) of
                Inl e \<Rightarrow> (Some e, fs1)
              | Inr fs2 \<Rightarrow> (None, fs2))))"

fun unzip_loop ::
  "string \<Rightarrow> (string \<times> content option) list \<Rightarrow> node \<Rightarrow> error option \<times> node" where
  "unzip_loop dest [] fs = (None, fs)"
| "unzip_loop dest (f # fs') fs =
     (case unzip_entry dest f fs of
        (Some e, fs1) \<Rightarrow> (Some e, fs1)
      | (None, fs1) \<Rightarrow> unzip_loop dest fs' fs1)"

text \<open>\<open>unzip\<close>: \<open>zip.OpenReader\<close> fails on a file that is not an archive.\<close>

definition unzip :: "string \<Rightarrow> string \<Rightarrow> node \<Rightarrow> error option \<times> node" where
  "unzip src dest fs =
     (case ReadFile fs src of
        Inl e \<Rightarrow> (Some e, fs)
      | Inr (Raw b) \<Rightarrow> (Some ZipError, fs)
      | Inr (Zip files) \<Rightarrow> unzip_loop dest files fs)"

text \<open>The callback of \<open>zipDirectory\<close>: the entry written for one visited node.\<close>

definition zip_visit :: "string \<Rightarrow> string \<times> node \<Rightarrow> error + string \<times> content option" where
  "zip_visit source v =
     (case v of (path, info) \<Rightarrow>
        (case Rel source path of
           None \<Rightarrow> Inl (rel_error source path)
         | Some relPath \<Rightarrow>
             (case info of
                DirNode ds \<Rightarrow> Inr (relPath @ ''/'', None)
              | FileNode c \<Rightarrow> Inr (relPath, Some c))))"

fun zip_loop ::
  "string \<Rightarrow> (string \<times> node) list \<Rightarrow> (string \<times> content option) list
   \<Rightarrow> error option \<times> (string \<times> content option) list" where
  "zip_loop source [] archive = (None, archive)"
| "zip_loop source (v # vs) archive =
     (case zip_visit source v of
        Inl e \<Rightarrow> (Some e, archive)
      | Inr f \<Rightarrow> zip_loop source vs (archive @ [f]))"

text \<open>
  \<open>zipDirectory\<close>: the target is created, the source is walked, and the deferred
  \<open>archive.Close\<close> leaves in the target the archive of the entries written so far.
\<close>

definition zipDirectory :: "string \<Rightarrow> string \<Rightarrow> node \<Rightarrow> error option \<times> node" where
  "zipDirectory source target fs =
     (case WriteFile fs target (Zip []) of
        Inl e \<Rightarrow> (Some e, fs)
      | Inr fs1 \<Rightarrow>
          (case Stat fs1 source of
             Inl e \<Rightarrow> (Some e, fs1)
           | Inr root \<Rightarrow>
               (case zip_loop source (walk source root) [] of
                  (err, archive) \<Rightarrow>
                    (case WriteFile fs1 target (Zip archive) of
                       Inl e \<Rightarrow> (Some e, fs1)
                     | Inr fs2 \<Rightarrow> (err, fs2)))))"

section \<open>Component discovery\<close>

text \<open>The callback of \<open>findComponents\<close>, applied to one visited node.\<close>

definition visit_component :: "string list \<Rightarrow> string \<times> node \<Rightarrow> string list" where
  "visit_component components v =
     (case v of (path, info) \<Rightarrow>
        if is_dir info then
          (let ext = Ext path in
           if ext = ''.app'' \<or> ext = ''.appex'' \<or> ext = ''.framework''
           then components @ [path] else components)
        else
          (let ext = Ext path in
           if ext = ''.dylib'' then components @ [path] else components))"

definition findComponents :: "node \<Rightarrow> string \<Rightarrow> error + string list" where
  "findComponents fs appPath =
     (case Stat fs appPath of
        Inl e \<Rightarrow> Inl e
      | Inr root \<Rightarrow>
          let components = foldl visit_component [] (walk appPath root);
              appComponents = filter (\<lambda>comp. Ext comp = ''.app'') components;
              nonAppComponents = filter (\<lambda>comp. Ext comp \<noteq> ''.app'') components
          in Inr (nonAppComponents @ appComponents))"



section \<open>The resigner\<close>

record Config =
  SourceIPA :: string
  Certificate :: string
  Entitlements :: string
  MobileProvision :: string
  BundleID :: string

text \<open>
  A progress callback is called with a message and either returns or panics. A nil
  callback is \<open>None\<close>.
\<close>

datatype cb_result = Returns | Panics string

type_synonym ProgressCallback = "string \<Rightarrow> cb_result"

record Resigner =
  config :: Config
  callback :: "ProgressCallback option"
  tmpDir :: string
  appDir :: string

definition NewResigner :: "Config \<Rightarrow> ProgressCallback option \<Rightarrow> Resigner" where
  "NewResigner cfg cb = \<lparr>config = cfg, callback = cb, tmpDir = [], appDir = []\<rparr>"

text \<open>
  The world outside the resigner: the filesystem, the command lines of the external
  programs run so far, the lines printed to standard output, and the messages the
  callback was called with.
\<close>

record world =
  disk :: node
  execs :: "string list list"
  stdout :: "string list"
  delivered :: "string list"

text \<open>
  An external program (\<open>security\<close>, \<open>PlistBuddy\<close>, \<open>codesign\<close>) is not modelled: what a
  command does is given by a parameter, from the command line, the number of commands
  run before it and the filesystem, to whether it exits with status 0, what it prints
  and the filesystem it leaves.
\<close>

record exec_result =
  exit_ok :: bool
  cmd_output :: string
  fs_after :: node

type_synonym system = "string list \<Rightarrow> nat \<Rightarrow> node \<Rightarrow> exec_result"

definition run_command :: "system \<Rightarrow> string list \<Rightarrow> world \<Rightarrow> exec_result \<times> world" where
  "run_command sys argv w =
     (let res = sys argv (length (execs w)) (disk w)
      in (res, w\<lparr>disk := fs_after res, execs := execs w @ [argv]\<rparr>))"

text \<open>
  A method of the resigner returns a value, returns an error, or panics; it leaves a
  world behind in each case.
\<close>

datatype 'a result = Ok 'a | Err error | Panic string

definition and_then ::
  "'a result \<times> world \<Rightarrow> ('a \<Rightarrow> world \<Rightarrow> 'b result \<times> world) \<Rightarrow> 'b result \<times> world" where
  "and_then m k =
     (case m of
        (Ok x, w) \<Rightarrow> k x w
      | (Err e, w) \<Rightarrow> (Err e, w)
      | (Panic v, w) \<Rightarrow> (Panic v, w))"

text \<open>\<open>fmt.Errorf("...: %w", err)\<close> around the error of a step.\<close>

definition wrap :: "string \<Rightarrow> 'a result \<times> world \<Rightarrow> 'a result \<times> world" where
  "wrap text m =
     (case m of
        (Err e, w) \<Rightarrow> (Err (Wrapf text e), w)
      | other \<Rightarrow> other)"

definition of_error :: "error option \<times> node \<Rightarrow> world \<Rightarrow> unit result \<times> world" where
  "of_error m w =
     (case m of
        (Some e, fs') \<Rightarrow> (Err e, w\<lparr>disk := fs'\<rparr>)
      | (None, fs') \<Rightarrow> (Ok (), w\<lparr>disk := fs'\<rparr>))"

text \<open>The text of an error (its \<open>Error()\<close>).\<close>

fun errno_text :: "errno \<Rightarrow> string" where
  "errno_text ENOENT = ''no such file or directory''"
| "errno_text ENOTDIR = ''not a directory''"
| "errno_text EISDIR = ''is a directory''"

fun error_text :: "error \<Rightarrow> string" where
  "error_text (Errorf s) = s"
| "error_text (Wrapf text e) = text @ error_text e"
| "error_text (PathError opn path e) = opn @ '' '' @ path @ '': '' @ errno_text e"
| "error_text ExitError = ''exit status 1''"
| "error_text ZipError = ''zip: not a valid zip file''"

text \<open>\<open>logProgress\<close>: the callback is called when it is not nil, then the line is printed.\<close>

definition logProgress :: "Resigner \<Rightarrow> string \<Rightarrow> world \<Rightarrow> unit result \<times> world" where
  "logProgress r message w =
     (case callback r of
        None \<Rightarrow> (Ok (), w\<lparr>stdout := stdout w @ [message]\<rparr>)
      | Some cb \<Rightarrow>
          (case cb message of
             Panics v \<Rightarrow> (Panic v, w\<lparr>delivered := delivered w @ [message]\<rparr>)
           | Returns \<Rightarrow>
               (Ok (), w\<lparr>delivered := delivered w @ [message],
                          stdout := stdout w @ [message]\<rparr>)))"

definition validate :: "Resigner \<Rightarrow> node \<Rightarrow> error option" where
  "validate r fs =
     (let c = config r in
      if SourceIPA c = [] then Some (Errorf ''source IPA path is required'')
      else if Certificate c = [] then Some (Errorf ''certificate is required'')
      else if IsNotExist (Stat fs (SourceIPA c))
        then Some (Errorf (''source file does not exist: '' @ SourceIPA c))
      else if MobileProvision c \<noteq> [] \<and> IsNotExist (Stat fs (MobileProvision c))
        then Some (Errorf (''mobile provision file does not exist: '' @ MobileProvision c))
      else if Entitlements c \<noteq> [] \<and> IsNotExist (Stat fs (Entitlements c))
        then Some (Errorf (''entitlements file does not exist: '' @ Entitlements c))
      else None)"

definition setupDirectories :: "Resigner \<Rightarrow> world \<Rightarrow> error option \<times> Resigner \<times> world" where
  "setupDirectories r w =
     (let outDir = Dir (SourceIPA (config r));
          tmpDir' = Join outDir ''tmp'';
          appDir' = Join tmpDir' ''app''
      in case MkdirAll (disk w) appDir' of
           Inl e \<Rightarrow> (Some e, r, w)
         | Inr fs' \<Rightarrow> (None, r\<lparr>tmpDir := tmpDir', appDir := appDir'\<rparr>, w\<lparr>disk := fs'\<rparr>))"

text \<open>The end of \<open>extractApp\<close> (``Get application path''): the first entry of \<open>Payload\<close>.\<close>

definition application_path :: "Resigner \<Rightarrow> world \<Rightarrow> string result \<times> world" where
  "application_path r w =
     (let payloadDir = Join (appDir r) ''Payload'' in
      case ReadDir (disk w) payloadDir of
        Inl e \<Rightarrow> (Err e, w)
      | Inr entries \<Rightarrow>
          (case entries of
             [] \<Rightarrow> (Err (Errorf ''no app found in Payload directory''), w)
           | name # rest \<Rightarrow> (Ok (Join payloadDir name), w)))"

definition extractApp :: "Resigner \<Rightarrow> world \<Rightarrow> string result \<times> world" where
  "extractApp r w =
     (let ext = ToLower (Ext (SourceIPA (config r))) in
      if ext = ''.ipa'' then
        and_then (logProgress r ''Extracting IPA file...'' w) (\<lambda>u w1.
        and_then (of_error (unzip (SourceIPA (config r)) (appDir r) (disk w1)) w1) (\<lambda>u w2.
        application_path r w2))
      else if ext = ''.app'' then
        and_then (logProgress r ''Copying .app file...'' w) (\<lambda>u w1.
        let payloadDir = Join (appDir r) ''Payload'' in
        case MkdirAll (disk w1) payloadDir of
          Inl e \<Rightarrow> (Err e, w1)
        | Inr fs1 \<Rightarrow>
            and_then (of_error (copyDir (SourceIPA (config r))
                         (Join payloadDir (Base (SourceIPA (config r)))) fs1) w1) (\<lambda>u w2.
            application_path r w2))
      else (Err (Errorf (''unsupported file type: '' @ ext @ '' (must be .ipa or .app)'')), w))"

definition handleMobileProvision :: "Resigner \<Rightarrow> string \<Rightarrow> world \<Rightarrow> unit result \<times> world" where
  "handleMobileProvision r appPath w =
     (if MobileProvision (config r) = [] then
        logProgress r ''Sign process using existing provisioning profile from payload'' w
      else
        and_then (logProgress r ''Copying provisioning profile into application payload'' w)
          (\<lambda>u w1.
        let dest = Join appPath ''embedded.mobileprovision'' in
        of_error (copyFile (MobileProvision (config r)) dest (disk w1)) w1))"

definition extractEntitlements ::
  "system \<Rightarrow> Resigner \<Rightarrow> string \<Rightarrow> world \<Rightarrow> string result \<times> world" where
  "extractEntitlements sys r appPath w =
     and_then (logProgress r ''Extract entitlements from mobileprovision'' w) (\<lambda>u w1.
     let entitlementsPath = Join (tmpDir r) ''entitlements.plist'' in
     if Entitlements (config r) \<noteq> [] then
       and_then (of_error (copyFile (Entitlements (config r)) entitlementsPath (disk w1)) w1)
         (\<lambda>u w2.
       and_then (logProgress r
           (''Using provided entitlements: '' @ Entitlements (config r)) w2) (\<lambda>u w3.
       (Ok entitlementsPath, w3)))
     else
       let provisionPath = Join appPath ''embedded.mobileprovision'';
           provisioningPlist = Join (tmpDir r) ''provisioning.plist''
       in case run_command sys [''security'', ''cms'', ''-D'', ''-i'', provisionPath] w1 of
            (res, w2) \<Rightarrow>
         if \<not> exit_ok res
         then (Err (Wrapf ''failed to decode provisioning profile: '' ExitError), w2)
         else
           (case WriteFile (disk w2) provisioningPlist (Raw (cmd_output res)) of
              Inl e \<Rightarrow> (Err e, w2)
            | Inr fs3 \<Rightarrow>
                (case run_command sys
                        [''/usr/libexec/PlistBuddy'', ''-x'', ''-c'', ''Print:Entitlements'',
                         provisioningPlist] (w2\<lparr>disk := fs3\<rparr>) of
                   (res', w4) \<Rightarrow>
                if \<not> exit_ok res'
                then (Err (Wrapf ''failed to extract entitlements: '' ExitError), w4)
                else
                  (case WriteFile (disk w4) entitlementsPath (Raw (cmd_output res')) of
                     Inl e \<Rightarrow> (Err e, w4)
                   | Inr fs5 \<Rightarrow> (Ok entitlementsPath, w4\<lparr>disk := fs5\<rparr>)))))"

text \<open>
  The arguments of the two \<open>exec.Command\<close> calls that occur more than once: \<open>codesign\<close>
  on a component, and \<open>PlistBuddy\<close> setting the identifier in the \<open>Info.plist\<close> of a
  bundle.
\<close>

definition codesign_command :: "Resigner \<Rightarrow> string \<Rightarrow> string \<Rightarrow> string list" where
  "codesign_command r entitlementsPath component =
     [''/usr/bin/codesign'', ''--continue'', ''--generate-entitlement-der'', ''-f'',
      ''-s'', Certificate (config r), ''--entitlements'', entitlementsPath, component]"

definition set_identifier_command :: "string \<Rightarrow> string \<Rightarrow> string list" where
  "set_identifier_command ident bundle =
     [''/usr/libexec/PlistBuddy'', ''-c'', ''Set:CFBundleIdentifier '' @ ident,
      Join bundle ''Info.plist'']"

definition handleBundleID ::
  "system \<Rightarrow> Resigner \<Rightarrow> string \<Rightarrow> world \<Rightarrow> unit result \<times> world" where
  "handleBundleID sys r appPath w =
     (if BundleID (config r) = [] then
        logProgress r ''Sign using existing bundle identifier from payload'' w
      else
        and_then (logProgress r
            (''Changing bundle identifier with: '' @ BundleID (config r)) w) (\<lambda>u w1.
        case run_command sys (set_identifier_command (BundleID (config r)) appPath) w1 of
          (res, w2) \<Rightarrow> if exit_ok res then (Ok (), w2) else (Err ExitError, w2)))"

definition codesign ::
  "system \<Rightarrow> Resigner \<Rightarrow> string \<Rightarrow> string \<Rightarrow> world \<Rightarrow> unit result \<times> world" where
  "codesign sys r component entitlementsPath w =
     (case run_command sys (codesign_command r entitlementsPath component) w of
        (res, w1) \<Rightarrow>
          if exit_ok res then (Ok (), w1)
          else (Err (Wrapf (''codesign failed: '' @ cmd_output res @ '' - '') ExitError), w1))"

text \<open>
  The block of the first loop of \<open>signComponents\<close> that changes the identifier of an
  extension; it returns \<open>extraCounter\<close> incremented.
\<close>

definition change_extension_identifier ::
  "system \<Rightarrow> Resigner \<Rightarrow> string \<Rightarrow> nat \<Rightarrow> world \<Rightarrow> nat result \<times> world" where
  "change_extension_identifier sys r component extraCounter w =
     (let newBundleID = BundleID (config r) @ ''.extra'' @ digits extraCounter in
      and_then (logProgress r
          (''Changing .appex bundle identifier with: '' @ newBundleID) w) (\<lambda>u w1.
      case run_command sys (set_identifier_command newBundleID component) w1 of
        (res, w2) \<Rightarrow>
          and_then
            (if exit_ok res then (Ok (), w2)
             else logProgress r
                    (''Warning: Failed to change bundle ID for '' @ component
                       @ '': '' @ error_text ExitError) w2) (\<lambda>u w3.
          (Ok (extraCounter + 1), w3))))"

text \<open>
  The body of the first loop of \<open>signComponents\<close> for one component (the \<open>switch\<close> on the
  extension); \<open>extraCounter\<close> goes in and comes out.
\<close>

definition sign_nested ::
  "system \<Rightarrow> Resigner \<Rightarrow> string \<Rightarrow> string \<Rightarrow> nat \<Rightarrow> world \<Rightarrow> nat result \<times> world" where
  "sign_nested sys r entitlementsPath component extraCounter w =
     (let ext = Ext component in
      if ext = ''.appex'' then
        and_then
          (if BundleID (config r) \<noteq> []
           then change_extension_identifier sys r component extraCounter w
           else (Ok extraCounter, w)) (\<lambda>extraCounter' w4.
        and_then (wrap (''failed to sign '' @ component @ '': '')
                    (codesign sys r component entitlementsPath w4)) (\<lambda>u w5.
        (Ok extraCounter', w5)))
      else if ext = ''.framework'' \<or> ext = ''.dylib'' then
        and_then (wrap (''failed to sign '' @ component @ '': '')
                    (codesign sys r component entitlementsPath w)) (\<lambda>u w5.
        (Ok extraCounter, w5))
      else (Ok extraCounter, w))"

fun sign_nested_loop ::
  "system \<Rightarrow> Resigner \<Rightarrow> string \<Rightarrow> string list \<Rightarrow> nat \<Rightarrow> world \<Rightarrow> nat result \<times> world" where
  "sign_nested_loop sys r entitlementsPath [] extraCounter w = (Ok extraCounter, w)"
| "sign_nested_loop sys r entitlementsPath (component # rest) extraCounter w =
     (case sign_nested sys r entitlementsPath component extraCounter w of
        (Ok extraCounter', w') \<Rightarrow> sign_nested_loop sys r entitlementsPath rest extraCounter' w'
      | (Err e, w') \<Rightarrow> (Err e, w')
      | (Panic v, w') \<Rightarrow> (Panic v, w'))"

text \<open>The second loop of \<open>signComponents\<close>: the application bundles.\<close>

fun sign_app_loop ::
  "system \<Rightarrow> Resigner \<Rightarrow> string \<Rightarrow> string list \<Rightarrow> world \<Rightarrow> unit result \<times> world" where
  "sign_app_loop sys r entitlementsPath [] w = (Ok (), w)"
| "sign_app_loop sys r entitlementsPath (component # rest) w =
     (if Ext component = ''.app'' then
        (case wrap (''failed to sign '' @ component @ '': '')
                (codesign sys r component entitlementsPath w) of
           (Ok u, w') \<Rightarrow> sign_app_loop sys r entitlementsPath rest w'
         | (Err e, w') \<Rightarrow> (Err e, w')
         | (Panic v, w') \<Rightarrow> (Panic v, w'))
      else sign_app_loop sys r entitlementsPath rest w)"

definition signComponents ::
  "system \<Rightarrow> Resigner \<Rightarrow> string \<Rightarrow> string \<Rightarrow> world \<Rightarrow> unit result \<times> world" where
  "signComponents sys r appPath entitlementsPath w =
     and_then (logProgress r
         (''Get list of components and sign with certificate: '' @ Certificate (config r)) w)
       (\<lambda>u w1.
     case findComponents (disk w1) appPath of
       Inl e \<Rightarrow> (Err e, w1)
     | Inr components \<Rightarrow>
         and_then (logProgress r ''Sign plugins, frameworks, dylibs'' w1) (\<lambda>u w2.
         and_then (sign_nested_loop sys r entitlementsPath components 0 w2) (\<lambda>n w3.
         and_then (logProgress r ''Sign app'' w3) (\<lambda>u w4.
         sign_app_loop sys r entitlementsPath components w4))))"

definition createResignedIPA :: "Resigner \<Rightarrow> string \<Rightarrow> world \<Rightarrow> unit result \<times> world" where
  "createResignedIPA r appPath w =
     (let outDir = Dir (SourceIPA (config r));
          resignedDir = Join outDir ''Resigned'';
          w0 = w\<lparr>disk := RemoveAll (disk w) resignedDir\<rparr>
      in case MkdirAll (disk w0) resignedDir of
           Inl e \<Rightarrow> (Err e, w0)
         | Inr fs1 \<Rightarrow>
             let w1 = w0\<lparr>disk := fs1\<rparr>;
                 ext = ToLower (Ext (SourceIPA (config r)))
             in
             if ext = ''.ipa'' then
               (let appName = Base appPath;
                    filename = TrimSuffix appName (Ext appName) @ ''.ipa'';
                    outputPath = Join resignedDir filename
                in and_then (logProgress r (''Creating the signed ipa: '' @ filename) w1)
                     (\<lambda>u w2.
                   and_then (of_error (zipDirectory (appDir r) outputPath (disk w2)) w2)
                     (\<lambda>u w3.
                   logProgress r (''Resigned IPA saved to: '' @ outputPath) w3)))
             else if ext = ''.app'' then
               (let appName = Base appPath;
                    outputPath = Join resignedDir appName
                in and_then (logProgress r ''Moving resigned .app file...'' w1) (\<lambda>u w2.
                   and_then (of_error (copyDir appPath outputPath (disk w2)) w2) (\<lambda>u w3.
                   logProgress r (''Resigned .app saved to: '' @ outputPath) w3)))
             else (Ok (), w1))"

text \<open>The body of \<open>Resign\<close>, up to its return or panic; the deferred function comes after.\<close>

definition Resign_body ::
  "system \<Rightarrow> Resigner \<Rightarrow> world \<Rightarrow> unit result \<times> Resigner \<times> world" where
  "Resign_body sys r w =
     (case validate r (disk w) of
        Some e \<Rightarrow> (Err e, r, w)
      | None \<Rightarrow>
          (case logProgress r ''Start (re)sign the app...'' w of
             (Panic v, w1) \<Rightarrow> (Panic v, r, w1)
           | (Err e, w1) \<Rightarrow> (Err e, r, w1)
           | (Ok u, w1) \<Rightarrow>
               (case setupDirectories r w1 of
                  (Some e, r1, w2) \<Rightarrow> (Err (Wrapf ''failed to setup directories: '' e), r1, w2)
                | (None, r1, w2) \<Rightarrow>
                    (case
                       and_then (wrap ''failed to extract app: '' (extractApp r1 w2))
                         (\<lambda>appPath w3.
                       and_then (wrap ''failed to handle mobile provision: ''
                                   (handleMobileProvision r1 appPath w3)) (\<lambda>u w4.
                       and_then (wrap ''failed to extract entitlements: ''
                                   (extractEntitlements sys r1 appPath w4))
                         (\<lambda>entitlementsPath w5.
                       and_then (wrap ''failed to handle bundle ID: ''
                                   (handleBundleID sys r1 appPath w5)) (\<lambda>u w6.
                       and_then (wrap ''failed to sign components: ''
                                   (signComponents sys r1 appPath entitlementsPath w6))
                         (\<lambda>u w7.
                       and_then (wrap ''failed to create resigned IPA: ''
                                   (createResignedIPA r1 appPath w7)) (\<lambda>u w8.
                       logProgress r1 ''XReSign FINISHED'' w8))))))
                     of (res, w9) \<Rightarrow> (res, r1, w9)))))"

text \<open>
  \<open>Resign\<close>: the body, then the deferred function. A panic of the body is recovered,
  turned into the returned error and logged; then the temporary directory is removed.
  A panic of the deferred function itself is not recovered: it leaves \<open>Resign\<close> as a
  panic, and the statements after it are not run.
\<close>

definition Resign :: "system \<Rightarrow> Resigner \<Rightarrow> world \<Rightarrow> unit result \<times> Resigner \<times> world" where
  "Resign sys r w =
     (case Resign_body sys r w of
        (res, r1, w1) \<Rightarrow>
          (case
             (case res of
                Panic v \<Rightarrow>
                  (let err = Errorf (''panic occurred: '' @ v) in
                   case logProgress r1 (''ERROR: '' @ error_text err) w1 of
                     (Panic v', w2) \<Rightarrow> (Panic v', w2)
                   | (other, w2) \<Rightarrow> (Err err, w2))
              | other \<Rightarrow> (other, w1))
           of
             (Panic v', w2) \<Rightarrow> (Panic v', r1, w2)
           | (res', w2) \<Rightarrow>
               (res', r1,
                if tmpDir r1 \<noteq> [] then w2\<lparr>disk := RemoveAll (disk w2) (tmpDir r1)\<rparr> else w2)))"

section \<open>Vocabulary of the claims about component discovery\<close>

text \<open>
  A name of a directory entry: not empty, not \<open>.\<close> or \<open>..\<close>, and without a separator.
  A tree is well formed when all its entries have such names.
\<close>

definition wf_name :: "string \<Rightarrow> bool" where
  "wf_name n = (n \<noteq> [] \<and> n \<noteq> ''.'' \<and> n \<noteq> ''..'' \<and> CHR ''/'' \<notin> set n)"

fun wf_names :: "node \<Rightarrow> bool" where
  "wf_names (FileNode c) = True"
| "wf_names (DirNode es) = (\<forall>e \<in> set es. wf_name (fst e) \<and> wf_names (snd e))"

fun descendants :: "node \<Rightarrow> (string \<times> node) list" where
  "descendants (FileNode c) = []"
| "descendants (DirNode es) = concat (map (\<lambda>(name, child). (name, child) # descendants child) es)"

definition count_dirs :: "string \<Rightarrow> node \<Rightarrow> nat" where
  "count_dirs ext nd = length (filter (\<lambda>(name, x). is_dir x \<and> Ext name = ext) (descendants nd))"

definition count_files :: "string \<Rightarrow> node \<Rightarrow> nat" where
  "count_files ext nd = length (filter (\<lambda>(name, x). \<not> is_dir x \<and> Ext name = ext) (descendants nd))"

definition ext_view :: "(string \<times> node) list \<Rightarrow> (string \<times> node) list" where
  "ext_view vs = map (\<lambda>(p, x). (Ext p, x)) vs"

definition is_component :: "string \<times> node \<Rightarrow> bool" where
  "is_component v =
     (case v of (ext, x) \<Rightarrow>
        if is_dir x then ext = ''.app'' \<or> ext = ''.appex'' \<or> ext = ''.framework''
        else ext = ''.dylib'')"

text \<open>An application bundle used as the example of the claims: a framework, an
  extension with a nested watch application inside, and a dynamic library.\<close>

definition example_app :: node where
  "example_app = DirNode
     [(''Frameworks'',
         DirNode [(''Test.framework'', DirNode [(''Test'', FileNode (Raw ''code''))])]),
      (''Info.plist'', FileNode (Raw ''plist'')),
      (''PlugIns'',
         DirNode [(''Widget.appex'',
           DirNode [(''Info.plist'', FileNode (Raw ''plist'')),
                    (''Watch.app'', DirNode [])])]),
      (''test.dylib'', FileNode (Raw ''code''))]"

definition example_disk :: node where
  "example_disk = DirNode [(''Test.app'', example_app)]"


section \<open>Vocabulary of the claims about the pipeline\<close>

text \<open>A resigner whose callback is nil or returns from every call.\<close>

definition never_panics :: "Resigner \<Rightarrow> bool" where
  "never_panics r = (case callback r of None \<Rightarrow> True | Some cb \<Rightarrow> \<forall>m. cb m = Returns)"

text \<open>
  The disk after the extraction step of \<open>extractApp\<close>, when that step succeeds: the
  archive unpacked into the working directory, or the bare bundle copied below its
  \<open>Payload\<close> directory.
\<close>

definition extracted :: "Resigner \<Rightarrow> node \<Rightarrow> node option" where
  "extracted r d =
     (let ext = ToLower (Ext (SourceIPA (config r))) in
      if ext = ''.ipa'' then
        (case unzip (SourceIPA (config r)) (appDir r) d of
           (None, d') \<Rightarrow> Some d'
         | (Some e, d') \<Rightarrow> None)
      else if ext = ''.app'' then
        (case MkdirAll d (Join (appDir r) ''Payload'') of
           Inl e \<Rightarrow> None
         | Inr d1 \<Rightarrow>
             (case copyDir (SourceIPA (config r))
                     (Join (Join (appDir r) ''Payload'') (Base (SourceIPA (config r)))) d1 of
                (None, d') \<Rightarrow> Some d'
              | (Some e, d') \<Rightarrow> None))
      else None)"

text \<open>An archive with two application bundles in its \<open>Payload\<close> directory.\<close>

definition two_apps_disk :: node where
  "two_apps_disk = DirNode
     [(''d'', DirNode
        [(''Two.ipa'', FileNode
           (Zip [(''Payload/A.app/Info.plist'', Some (Raw ''a'')),
                 (''Payload/B.app/Info.plist'', Some (Raw ''b''))]))])]"

definition two_apps_config :: Config where
  "two_apps_config =
     \<lparr>SourceIPA = ''/d/Two.ipa'', Certificate = ''Test Cert'', Entitlements = [],
      MobileProvision = [], BundleID = []\<rparr>"

definition start_world :: "node \<Rightarrow> world" where
  "start_world d = \<lparr>disk = d, execs = [], stdout = [], delivered = []\<rparr>"

text \<open>External programs that always succeed, print nothing and change nothing.\<close>

definition sys_ok :: system where
  "sys_ok argv n d = \<lparr>exit_ok = True, cmd_output = [], fs_after = d\<rparr>"

text \<open>The resigner and the world after \<open>setupDirectories\<close>, for a configuration and a disk.\<close>

definition prepared :: "Config \<Rightarrow> node \<Rightarrow> Resigner \<times> world" where
  "prepared cfg d = snd (setupDirectories (NewResigner cfg None) (start_world d))"

text \<open>
  A configuration that validation must refuse: a mandatory field is missing, or a path
  it names does not exist.
\<close>

definition invalid_config :: "Config \<Rightarrow> node \<Rightarrow> bool" where
  "invalid_config c d =
     (SourceIPA c = [] \<or> Certificate c = []
      \<or> IsNotExist (Stat d (SourceIPA c))
      \<or> (MobileProvision c \<noteq> [] \<and> IsNotExist (Stat d (MobileProvision c)))
      \<or> (Entitlements c \<noteq> [] \<and> IsNotExist (Stat d (Entitlements c))))"

text \<open>A disk with a text file as the source, beside a directory \<open>tmp\<close> of the user's.\<close>

definition notes_disk :: node where
  "notes_disk = DirNode
     [(''d'', DirNode
        [(''notes.txt'', FileNode (Raw ''hello'')),
         (''tmp'', DirNode [(''keep.txt'', FileNode (Raw ''mine''))])])]"

definition notes_config :: Config where
  "notes_config =
     \<lparr>SourceIPA = ''/d/notes.txt'', Certificate = ''Test Cert'', Entitlements = [],
      MobileProvision = [], BundleID = []\<rparr>"

text \<open>A callback that returns from the first message of a run and panics on any other.\<close>

definition panicky :: ProgressCallback where
  "panicky m = (if m = ''Start (re)sign the app...'' then Returns else Panics ''observer failed'')"

text \<open>The two-bundle archive beside an entitlements file, and a configuration naming it.\<close>

definition entitled_disk :: node where
  "entitled_disk = DirNode
     [(''d'', DirNode
        [(''Two.ipa'', FileNode
           (Zip [(''Payload/A.app/Info.plist'', Some (Raw ''a'')),
                 (''Payload/B.app/Info.plist'', Some (Raw ''b''))])),
         (''ent.plist'', FileNode (Raw ''<plist>get-task-allow</plist>''))])]"

definition entitled_config :: Config where
  "entitled_config =
     \<lparr>SourceIPA = ''/d/Two.ipa'', Certificate = ''Test Cert'', Entitlements = ''/d/ent.plist'',
      MobileProvision = [], BundleID = []\<rparr>"


section \<open>Vocabulary of the claims about signing\<close>

definition is_codesign :: "string list \<Rightarrow> bool" where
  "is_codesign argv = (take 1 argv = [''/usr/bin/codesign''])"

definition is_set_identifier :: "string list \<Rightarrow> bool" where
  "is_set_identifier argv = (take 2 argv = [''/usr/libexec/PlistBuddy'', ''-c''])"

text \<open>The commands run since a world \<open>w\<close>, in a later world \<open>w'\<close>.\<close>

definition commands_since :: "world \<Rightarrow> world \<Rightarrow> string list list" where
  "commands_since w w' = drop (length (execs w)) (execs w')"

text \<open>
  What the first loop of \<open>signComponents\<close> is to run for one component when nothing
  stops it, and the counter it leaves.
\<close>

definition nested_commands :: "Resigner \<Rightarrow> string \<Rightarrow> nat \<Rightarrow> string \<Rightarrow> string list list" where
  "nested_commands r entitlementsPath k c =
     (if Ext c = ''.appex'' then
        (if BundleID (config r) \<noteq> []
         then [set_identifier_command (BundleID (config r) @ ''.extra'' @ digits k) c]
         else [])
        @ [codesign_command r entitlementsPath c]
      else if Ext c = ''.framework'' \<or> Ext c = ''.dylib''
        then [codesign_command r entitlementsPath c]
      else [])"

definition next_counter :: "Resigner \<Rightarrow> nat \<Rightarrow> string \<Rightarrow> nat" where
  "next_counter r k c = (if Ext c = ''.appex'' \<and> BundleID (config r) \<noteq> [] then k + 1 else k)"

fun loop_commands :: "Resigner \<Rightarrow> string \<Rightarrow> nat \<Rightarrow> string list \<Rightarrow> string list list" where
  "loop_commands r entitlementsPath k [] = []"
| "loop_commands r entitlementsPath k (c # cs) =
     nested_commands r entitlementsPath k c
     @ loop_commands r entitlementsPath (next_counter r k c) cs"

text \<open>The identifier commands the claim expects: one per extension, numbered from 0.\<close>

definition extension_identifiers :: "Resigner \<Rightarrow> string list \<Rightarrow> string list list" where
  "extension_identifiers r components =
     (if BundleID (config r) = [] then []
      else map (\<lambda>(i, c). set_identifier_command (BundleID (config r) @ ''.extra'' @ digits i) c)
             (enumerate 0 (filter (\<lambda>c. Ext c = ''.appex'') components)))"

text \<open>The warning printed when the identifier of an extension cannot be set.\<close>

definition identifier_warning :: "string \<Rightarrow> string" where
  "identifier_warning component =
     ''Warning: Failed to change bundle ID for '' @ component @ '': exit status 1''"

text \<open>An application with three extensions, and a configuration with a new identifier.\<close>

definition three_extensions_disk :: node where
  "three_extensions_disk = DirNode
     [(''App.app'', DirNode
        [(''Frameworks'', DirNode [(''Core.framework'', DirNode [])]),
         (''PlugIns'', DirNode
            [(''Share.appex'', DirNode []),
             (''Today.appex'', DirNode []),
             (''Watch.appex'', DirNode [])])])]"

definition acme_config :: Config where
  "acme_config =
     \<lparr>SourceIPA = ''/App.ipa'', Certificate = ''Test Cert'', Entitlements = [],
      MobileProvision = [], BundleID = ''com.acme.app''\<rparr>"

text \<open>External programs of which every call setting an identifier fails and every other
  call succeeds.\<close>

definition sys_plist_fails :: system where
  "sys_plist_fails argv n d =
     \<lparr>exit_ok = (take 2 argv \<noteq> [''/usr/libexec/PlistBuddy'', ''-c'']), cmd_output = [],
      fs_after = d\<rparr>"

text \<open>The two-bundle archive with a new identifier configured.\<close>

definition renamed_config :: Config where
  "renamed_config =
     \<lparr>SourceIPA = ''/d/Two.ipa'', Certificate = ''Test Cert'', Entitlements = [],
      MobileProvision = [], BundleID = ''com.acme.app''\<rparr>"

text \<open>External programs of which every \<open>codesign\<close> call succeeds.\<close>

definition codesign_succeeds :: "system \<Rightarrow> bool" where
  "codesign_succeeds sys = (\<forall>argv n d. is_codesign argv \<longrightarrow> exit_ok (sys argv n d))"

text \<open>External programs of which every call setting an identifier fails.\<close>

definition identifier_fails :: "system \<Rightarrow> bool" where
  "identifier_fails sys = (\<forall>argv n d. is_set_identifier argv \<longrightarrow> \<not> exit_ok (sys argv n d))"

text \<open>
  External programs of which the call setting the identifier of the primary bundle (to
  the configured \<open>BundleID\<close> itself) fails.
\<close>

definition primary_identifier_fails :: "system \<Rightarrow> Resigner \<Rightarrow> bool" where
  "primary_identifier_fails sys r =
     (\<forall>bundle n d. \<not> exit_ok (sys (set_identifier_command (BundleID (config r)) bundle) n d))"

definition is_primary_identifier :: "Resigner \<Rightarrow> string list \<Rightarrow> bool" where
  "is_primary_identifier r argv =
     (take 3 argv = [''/usr/libexec/PlistBuddy'', ''-c'',
                     ''Set:CFBundleIdentifier '' @ BundleID (config r)])"


section \<open>Paths: properties\<close>

lemma split_sep_not_Nil [simp]: "split_sep s \<noteq> []"
  by (induction s) (auto split: list.splits)

lemma split_sep_append: "split_sep (a @ CHR ''/'' # b) = split_sep a @ split_sep b"
  by (induction a) (auto split: list.splits)

lemma split_sep_name: "CHR ''/'' \<notin> set n \<Longrightarrow> split_sep n = [n]"
  by (induction n) (auto split: list.splits)

lemma clean_step_name: "wf_name n \<Longrightarrow> clean_step r st n = n # st"
  by (auto simp: clean_step_def wf_name_def)

lemma clean_elems_snoc:
  "wf_name n \<Longrightarrow> clean_elems r (a @ CHR ''/'' # n) = clean_elems r a @ [n]"
  by (simp add: clean_elems_def split_sep_append split_sep_name wf_name_def clean_step_name)

lemma clean_elems_name: "wf_name n \<Longrightarrow> clean_elems r n = [n]"
  by (simp add: clean_elems_def split_sep_name wf_name_def clean_step_name)

lemma join_sep_snoc:
  "join_sep (xs @ [n]) = (if xs = [] then n else join_sep xs @ CHR ''/'' # n)"
  by (induction xs rule: join_sep.induct) auto

lemma wf_name_not_rooted: "wf_name n \<Longrightarrow> \<not> is_rooted n"
  by (cases n) (auto simp: wf_name_def is_rooted_def)

lemma is_rooted_append: "a \<noteq> [] \<Longrightarrow> is_rooted (a @ b) = is_rooted a"
  by (cases a) (auto simp: is_rooted_def)

lemma Join_name:
  "wf_name n \<Longrightarrow>
   Join p n = (if is_rooted p then ''/'' else []) @ join_sep (clean_elems (is_rooted p) p @ [n])
   \<or> (p = [] \<and> Join p n = n)"
  by (auto simp: Join_def Clean_def Let_def clean_elems_snoc clean_elems_name
      wf_name_not_rooted is_rooted_append join_sep_snoc wf_name_def)

lemma Join_name_suffix:
  assumes "wf_name n"
  shows "\<exists>pre. Join p n = pre @ n \<and> (pre = [] \<or> last pre = CHR ''/'')"
proof -
  from Join_name [OF assms, of p] show ?thesis
  proof
    assume j: "Join p n = (if is_rooted p then ''/'' else []) @ join_sep (clean_elems (is_rooted p) p @ [n])"
    show ?thesis
    proof (cases "clean_elems (is_rooted p) p = []")
      case True
      with j show ?thesis by (cases "is_rooted p") auto
    next
      case False
      with j have "Join p n = ((if is_rooted p then ''/'' else []) @ join_sep (clean_elems (is_rooted p) p) @ ''/'') @ n"
        by (simp add: join_sep_snoc)
      then show ?thesis by (intro exI conjI, assumption) simp
    qed
  next
    assume "p = [] \<and> Join p n = n"
    then show ?thesis by auto
  qed
qed

lemma ext_scan_stop:
  "CHR ''/'' \<notin> set xs \<Longrightarrow> ext_scan (xs @ CHR ''/'' # ys) acc = ext_scan xs acc"
  by (induction xs arbitrary: acc) auto

lemma Ext_suffix:
  assumes "CHR ''/'' \<notin> set n" "pre = [] \<or> last pre = CHR ''/''"
  shows "Ext (pre @ n) = Ext n"
proof (cases "pre = []")
  case True then show ?thesis by simp
next
  case False
  with assms(2) obtain q where "pre = q @ ''/''"
    by (metis append_butlast_last_id)
  then show ?thesis using assms(1)
    by (simp add: Ext_def ext_scan_stop)
qed

lemma Ext_Join: "wf_name n \<Longrightarrow> Ext (Join p n) = Ext n"
  using Join_name_suffix [of n p] Ext_suffix [of n] by (auto simp: wf_name_def)


lemma walk_ext_view:
  "wf_names nd \<Longrightarrow> ext_view (walk path nd) = (Ext path, nd) # ext_view (descendants nd)"
proof (induction path nd rule: walk.induct)
  case (1 path c)
  then show ?case by (simp add: ext_view_def)
next
  case (2 path es)
  have "ext_view (walk (Join path name) child) = (Ext name, child) # ext_view (descendants child)"
    if "(name, child) \<in> set es" for name child
    using 2 that by (fastforce simp: Ext_Join)
  then have "map (\<lambda>e. ext_view (case e of (name, child) \<Rightarrow> walk (Join path name) child)) es
           = map (\<lambda>e. ext_view (case e of (name, child) \<Rightarrow> (name, child) # descendants child)) es"
    by (intro map_cong) (auto simp: ext_view_def)
  then have "concat (map (\<lambda>e. ext_view (case e of (name, child) \<Rightarrow> walk (Join path name) child)) es)
           = concat (map (\<lambda>e. ext_view (case e of (name, child) \<Rightarrow> (name, child) # descendants child)) es)"
    by (rule arg_cong)
  then show ?case
    by (simp add: ext_view_def map_concat comp_def)
qed

lemma visit_component_step:
  "visit_component acc v = acc @ (if is_component (Ext (fst v), snd v) then [fst v] else [])"
  by (cases v) (simp add: visit_component_def is_component_def Let_def)

lemma foldl_visit_component:
  "foldl visit_component acc vs = acc @ map fst (filter (\<lambda>v. is_component (Ext (fst v), snd v)) vs)"
  by (induction vs arbitrary: acc) (simp_all add: visit_component_step)

lemma filter_components_ext:
  "length (filter (\<lambda>c. P (Ext c)) (map fst (filter (\<lambda>v. is_component (Ext (fst v), snd v)) vs)))
   = length (filter (\<lambda>v. P (fst v) \<and> is_component v) (ext_view vs))"
  by (induction vs) (auto simp: ext_view_def)

lemma count_dirs_alt:
  "ext \<in> {''.app'', ''.appex'', ''.framework''} \<Longrightarrow>
   count_dirs ext nd = length (filter (\<lambda>v. fst v = ext \<and> is_component v) (ext_view (descendants nd)))"
  unfolding count_dirs_def ext_view_def filter_map length_map comp_def
  by (rule arg_cong [where f = length], rule filter_cong) (auto simp: is_component_def)

lemma count_files_alt:
  "count_files ''.dylib'' nd = length (filter (\<lambda>v. fst v = ''.dylib'' \<and> is_component v) (ext_view (descendants nd)))"
  unfolding count_files_def ext_view_def filter_map length_map comp_def
  by (rule arg_cong [where f = length], rule filter_cong) (auto simp: is_component_def)

lemma non_app_split:
  "length (filter (\<lambda>v. fst v \<noteq> ''.app'' \<and> is_component v) xs)
   = length (filter (\<lambda>v. fst v = ''.appex'' \<and> is_component v) xs)
   + length (filter (\<lambda>v. fst v = ''.framework'' \<and> is_component v) xs)
   + length (filter (\<lambda>v. fst v = ''.dylib'' \<and> is_component v) xs)"
  by (induction xs) (auto simp: is_component_def)

lemma component_ext:
  "is_component (Ext p, x) \<Longrightarrow> Ext p \<noteq> ''.app'' \<Longrightarrow> Ext p \<in> {''.appex'', ''.framework'', ''.dylib''}"
  by (auto simp: is_component_def split: if_splits)

section \<open>Component discovery: the order of the result\<close>

text \<open>
  Claim C1. Let the application path be a directory whose name has the extension
  \<open>.app\<close>, over a well-formed tree with N directories of extension \<open>.appex\<close>, M of
  extension \<open>.framework\<close>, K regular files of extension \<open>.dylib\<close> and A nested
  directories of extension \<open>.app\<close> below it. Then \<open>findComponents\<close> returns a list of
  length N + M + K + 1 + A that is the non-application components followed by the
  1 + A application bundles: every component of extension \<open>.appex\<close>, \<open>.framework\<close> or
  \<open>.dylib\<close> stands before every component of extension \<open>.app\<close>, and the application
  bundles are the suffix.
\<close>

theorem findComponents_order:
  assumes root: "Stat fs appPath = Inr root" and dir: "is_dir root"
    and ext: "Ext appPath = ''.app''" and wf: "wf_names root"
  shows "\<exists>nonApps apps.
      findComponents fs appPath = Inr (nonApps @ apps)
    \<and> length (nonApps @ apps)
        = count_dirs ''.appex'' root + count_dirs ''.framework'' root
          + count_files ''.dylib'' root + 1 + count_dirs ''.app'' root
    \<and> length apps = 1 + count_dirs ''.app'' root
    \<and> (\<forall>c \<in> set nonApps. Ext c \<in> {''.appex'', ''.framework'', ''.dylib''})
    \<and> (\<forall>c \<in> set apps. Ext c = ''.app'')"
proof -
  define ws where "ws = walk appPath root"
  define comps where "comps = map fst (filter (\<lambda>v. is_component (Ext (fst v), snd v)) ws)"
  define apps where "apps = filter (\<lambda>c. Ext c = ''.app'') comps"
  define nonApps where "nonApps = filter (\<lambda>c. Ext c \<noteq> ''.app'') comps"
  have view: "ext_view ws = (''.app'', root) # ext_view (descendants root)"
    using walk_ext_view [OF wf, of appPath] ext by (simp add: ws_def)
  have res: "findComponents fs appPath = Inr (nonApps @ apps)"
    by (simp add: findComponents_def root foldl_visit_component Let_def
        apps_def nonApps_def comps_def ws_def)
  have root_comp: "is_component (''.app'', root)"
    using dir by (simp add: is_component_def)
  have la: "length apps = 1 + count_dirs ''.app'' root"
    unfolding apps_def comps_def
    using filter_components_ext [of "\<lambda>e. e = ''.app''" ws] root_comp
    by (simp add: view count_dirs_alt)
  have ln: "length nonApps = count_dirs ''.appex'' root + count_dirs ''.framework'' root
          + count_files ''.dylib'' root"
    unfolding nonApps_def comps_def
    using filter_components_ext [of "\<lambda>e. e \<noteq> ''.app''" ws]
    by (simp add: view non_app_split count_dirs_alt count_files_alt)
  have en: "\<forall>c \<in> set nonApps. Ext c \<in> {''.appex'', ''.framework'', ''.dylib''}"
    unfolding nonApps_def comps_def using component_ext by fastforce
  have ea: "\<forall>c \<in> set apps. Ext c = ''.app''"
    by (simp add: apps_def)
  from res la ln en ea show ?thesis
    by (intro exI [of _ nonApps] exI [of _ apps]) simp
qed

theorem findComponents_order_witness:
  "Stat example_disk ''/Test.app'' = Inr example_app
   \<and> is_dir example_app \<and> Ext ''/Test.app'' = ''.app'' \<and> wf_names example_app
   \<and> (\<exists>nonApps apps.
         findComponents example_disk ''/Test.app'' = Inr (nonApps @ apps)
       \<and> length (nonApps @ apps) = 1 + 1 + 1 + 1 + 1 \<and> length apps = 1 + 1
       \<and> (\<forall>c \<in> set nonApps. Ext c \<in> {''.appex'', ''.framework'', ''.dylib''})
       \<and> (\<forall>c \<in> set apps. Ext c = ''.app''))"
proof -
  have h1: "Stat example_disk ''/Test.app'' = Inr example_app" by code_simp
  have h2: "is_dir example_app" by code_simp
  have h3: "Ext ''/Test.app'' = ''.app''" by code_simp
  have h4: "wf_names example_app" by code_simp
  have n: "count_dirs ''.appex'' example_app = 1" by code_simp
  have m: "count_dirs ''.framework'' example_app = 1" by code_simp
  have k: "count_files ''.dylib'' example_app = 1" by code_simp
  have a: "count_dirs ''.app'' example_app = 1" by code_simp
  show ?thesis
    using findComponents_order [OF h1 h2 h3 h4] h1 h2 h3 h4 by (simp add: n m k a)
qed


section \<open>The pipeline: basic facts\<close>

lemma and_then_simps [simp]:
  "and_then (Ok x, w) k = k x w"
  "and_then (Err e, w) k = (Err e, w)"
  "and_then (Panic v, w) k = (Panic v, w)"
  by (simp_all add: and_then_def)

lemma wrap_simps [simp]:
  "wrap p (Ok x, w) = (Ok x, w)"
  "wrap p (Err e, w) = (Err (Wrapf p e), w)"
  "wrap p (Panic v, w) = (Panic v, w)"
  by (simp_all add: wrap_def)

lemma of_error_simps [simp]:
  "of_error (Some e, d) w = (Err e, w\<lparr>disk := d\<rparr>)"
  "of_error (None, d) w = (Ok (), w\<lparr>disk := d\<rparr>)"
  by (simp_all add: of_error_def)

lemma logProgress_never_panics:
  "never_panics r \<Longrightarrow>
   logProgress r m w =
     (Ok (), w\<lparr>delivered := (if callback r = None then delivered w else delivered w @ [m]),
              stdout := stdout w @ [m]\<rparr>)"
  by (auto simp: never_panics_def logProgress_def split: option.splits cb_result.splits)

lemma logProgress_cases:
  "(\<exists>w1. logProgress r m w = (Ok (), w1) \<and> disk w1 = disk w \<and> execs w1 = execs w)
   \<or> (\<exists>v w1. logProgress r m w = (Panic v, w1) \<and> disk w1 = disk w \<and> execs w1 = execs w)"
  by (simp add: logProgress_def split: option.splits cb_result.splits)

lemma prepared_callback: "callback (fst (prepared cfg d)) = None"
  by (simp add: prepared_def setupDirectories_def NewResigner_def Let_def split: sum.splits)


section \<open>The application path\<close>

text \<open>
  Claim C3, as stated, fails: an archive with two entries in its \<open>Payload\<close> directory is
  not refused. \<open>extractApp\<close> returns the first entry, and the whole pipeline succeeds.
\<close>

theorem extractApp_two_entries_counterexample:
  "ReadDir (disk (snd (extractApp (fst (prepared two_apps_config two_apps_disk))
                                  (snd (prepared two_apps_config two_apps_disk)))))
      ''/d/tmp/app/Payload'' = Inr [''A.app'', ''B.app'']
   \<and> fst (extractApp (fst (prepared two_apps_config two_apps_disk))
                     (snd (prepared two_apps_config two_apps_disk)))
      = Ok ''/d/tmp/app/Payload/A.app''
   \<and> fst (Resign sys_ok (NewResigner two_apps_config None) (start_world two_apps_disk)) = Ok ()"
  by code_simp

text \<open>
  Claim C3, amended. After a successful extraction (or bare-bundle copy), \<open>extractApp\<close>
  reads the \<open>Payload\<close> directory: when it has no entry, \<open>extractApp\<close> fails with the error
  ``no app found in Payload directory''; when it has one entry or several, \<open>extractApp\<close>
  returns the path of the first entry in name order; when it cannot be read,
  \<open>extractApp\<close> fails with the error of the read.
\<close>

theorem extractApp_payload:
  assumes np: "never_panics r" and ex: "extracted r (disk w) = Some d'"
  shows "\<exists>w'. disk w' = d' \<and>
     extractApp r w =
       ((case ReadDir d' (Join (appDir r) ''Payload'') of
           Inl e \<Rightarrow> Err e
         | Inr [] \<Rightarrow> Err (Errorf ''no app found in Payload directory'')
         | Inr (name # rest) \<Rightarrow> Ok (Join (Join (appDir r) ''Payload'') name)), w')"
proof -
  have ap: "\<And>w2. \<exists>w'. disk w' = disk w2 \<and> application_path r w2 =
       ((case ReadDir (disk w2) (Join (appDir r) ''Payload'') of
           Inl e \<Rightarrow> Err e
         | Inr [] \<Rightarrow> Err (Errorf ''no app found in Payload directory'')
         | Inr (name # rest) \<Rightarrow> Ok (Join (Join (appDir r) ''Payload'') name)), w')"
    by (auto simp: application_path_def Let_def split: sum.splits list.splits)
  show ?thesis
  proof (cases "ToLower (Ext (SourceIPA (config r))) = ''.ipa''")
    case True
    with ex obtain d1 where u: "unzip (SourceIPA (config r)) (appDir r) (disk w) = (None, d1)"
      and d: "d1 = d'"
      by (auto simp: extracted_def Let_def split: prod.splits option.splits)
    from ap [of "w\<lparr>delivered := (if callback r = None then delivered w else delivered w @ [''Extracting IPA file...'']),
              stdout := stdout w @ [''Extracting IPA file...''], disk := d1\<rparr>"]
    show ?thesis
      using True u d by (simp add: extractApp_def Let_def logProgress_never_panics [OF np])
  next
    case False
    with ex have app: "ToLower (Ext (SourceIPA (config r))) = ''.app''"
      by (auto simp: extracted_def Let_def split: if_splits)
    with ex False obtain d1 where m: "MkdirAll (disk w) (Join (appDir r) ''Payload'') = Inr d1"
      and c: "copyDir (SourceIPA (config r))
                (Join (Join (appDir r) ''Payload'') (Base (SourceIPA (config r)))) d1 = (None, d')"
      by (auto simp: extracted_def Let_def split: prod.splits option.splits sum.splits)
    from ap [of "w\<lparr>delivered := (if callback r = None then delivered w else delivered w @ [''Copying .app file...'']),
              stdout := stdout w @ [''Copying .app file...''], disk := d'\<rparr>"]
    show ?thesis
      using False app m c by (simp add: extractApp_def Let_def logProgress_never_panics [OF np])
  qed
qed

theorem extractApp_payload_witness:
  "never_panics (fst (prepared two_apps_config two_apps_disk))
   \<and> extracted (fst (prepared two_apps_config two_apps_disk)) two_apps_disk \<noteq> None
   \<and> fst (extractApp (fst (prepared two_apps_config two_apps_disk)) (start_world two_apps_disk))
       = Ok ''/d/tmp/app/Payload/A.app''"
proof -
  let ?r = "fst (prepared two_apps_config two_apps_disk)"
  let ?d = "the (extracted ?r two_apps_disk)"
  have np: "never_panics ?r"
    by (simp add: never_panics_def prepared_callback)
  have some: "extracted ?r two_apps_disk \<noteq> None"
    by code_simp
  have d: "disk (start_world two_apps_disk) = two_apps_disk"
    by (simp add: start_world_def)
  have ex: "extracted ?r (disk (start_world two_apps_disk)) = Some ?d"
    using some by (simp add: d)
  have rd: "ReadDir ?d (Join (appDir ?r) ''Payload'') = Inr [''A.app'', ''B.app'']"
    by code_simp
  have j: "Join (Join (appDir ?r) ''Payload'') ''A.app'' = ''/d/tmp/app/Payload/A.app''"
    by code_simp
  show ?thesis
    using extractApp_payload [OF np ex] np some by (auto simp: rd j)
qed


section \<open>Resign: validation, cleanup and panics\<close>

lemma Resign_body_cases:
  assumes "Resign_body sys r w = (res, r1, w1)"
  shows "(r1 = r \<and> disk w1 = disk w \<and> execs w1 = execs w \<and> res \<noteq> Ok ())
       \<or> (validate r (disk w) = None
          \<and> r1 = r\<lparr>tmpDir := Join (Dir (SourceIPA (config r))) ''tmp'',
                   appDir := Join (Join (Dir (SourceIPA (config r))) ''tmp'') ''app''\<rparr>)"
  using assms logProgress_cases [of r "''Start (re)sign the app...''" w]
  by (auto simp: Resign_body_def setupDirectories_def Let_def
      split: option.splits sum.splits prod.splits result.splits)

lemma map_of_put_entry: "map_of (put_entry n v ds) = (map_of ds)(n \<mapsto> v)"
  by (induction ds) (auto simp: fun_eq_iff)

lemma map_of_filter_other: "map_of (filter (\<lambda>d. fst d \<noteq> e) ds) e = None"
  by (induction ds) auto

lemma remove_all_at_gone:
  "p \<noteq> [] \<Longrightarrow> \<exists>e. lookup_at (remove_all_at p d) p = Inl e"
proof (induction p d rule: remove_all_at.induct)
  case (1 p c)
  then show ?case by (cases p) auto
next
  case (2 ds)
  then show ?case by simp
next
  case (3 e ds)
  then show ?case by (simp add: map_of_filter_other)
next
  case (4 e e' es ds)
  then show ?case by (auto simp: map_of_put_entry split: option.splits)
qed

lemma resolve_Join_name_last:
  assumes "wf_name n"
  shows "\<exists>xs. resolve (Join p n) = xs @ [n]"
proof -
  from Join_name_suffix [OF assms, of p] obtain pre
    where j: "Join p n = pre @ n" and pre: "pre = [] \<or> last pre = CHR ''/''" by blast
  show ?thesis
  proof (cases "pre = []")
    case True
    with j assms show ?thesis by (simp add: resolve_def clean_elems_name)
  next
    case False
    with pre obtain q where "pre = q @ ''/''" by (metis append_butlast_last_id)
    with j assms show ?thesis by (simp add: resolve_def clean_elems_snoc)
  qed
qed

lemma Join_name_not_Nil: "wf_name n \<Longrightarrow> Join p n \<noteq> []"
  using Join_name_suffix [of n p] by (auto simp: wf_name_def)

lemma RemoveAll_Join_gone:
  "wf_name n \<Longrightarrow> \<exists>e. Stat (RemoveAll d (Join p n)) (Join p n) = Inl e"
  using resolve_Join_name_last [of n p] remove_all_at_gone [of "resolve (Join p n)" d]
  by (auto simp: Stat_def RemoveAll_def Join_name_not_Nil split: sum.splits)

lemma logProgress_world:
  "logProgress r m w = (x, w1) \<Longrightarrow> disk w1 = disk w \<and> execs w1 = execs w"
  by (auto simp: logProgress_def split: option.splits cb_result.splits)

lemma wf_name_tmp: "wf_name ''tmp''"
  by (simp add: wf_name_def)

text \<open>
  Claim C6. A resigner starts with no temporary directory. For every run of \<open>Resign\<close> that
  returns (with success or with any error, a recovered panic included), either no
  temporary directory was allocated (validation or \<open>setupDirectories\<close> failed: the result is
  an error and the disk is as before), or the temporary root set by \<open>setupDirectories\<close> is
  no longer on the disk: the deferred function has removed it.
\<close>

theorem Resign_cleanup:
  assumes fresh: "tmpDir r = []"
    and run: "Resign sys r w = (res, r', w')"
    and returns: "\<forall>v. res \<noteq> Panic v"
  shows "(tmpDir r' = [] \<and> disk w' = disk w \<and> res \<noteq> Ok ())
       \<or> (tmpDir r' = Join (Dir (SourceIPA (config r))) ''tmp''
          \<and> (\<exists>e. Stat (disk w') (tmpDir r') = Inl e))"
proof -
  obtain res1 r1 w1 where body: "Resign_body sys r w = (res1, r1, w1)"
    by (cases "Resign_body sys r w") auto
  from Resign_body_cases [OF body] show ?thesis
  proof
    assume a: "r1 = r \<and> disk w1 = disk w \<and> execs w1 = execs w \<and> res1 \<noteq> Ok ()"
    have "tmpDir r' = [] \<and> disk w' = disk w \<and> res \<noteq> Ok ()"
      using run body a fresh returns
      by (auto simp: Resign_def Let_def split: result.splits prod.splits
          dest: logProgress_world)
    then show ?thesis by simp
  next
    assume a: "validate r (disk w) = None
          \<and> r1 = r\<lparr>tmpDir := Join (Dir (SourceIPA (config r))) ''tmp'',
                   appDir := Join (Join (Dir (SourceIPA (config r))) ''tmp'') ''app''\<rparr>"
    have "tmpDir r' = Join (Dir (SourceIPA (config r))) ''tmp''
          \<and> (\<exists>e. Stat (disk w') (tmpDir r') = Inl e)"
      using run body a returns Join_name_not_Nil [OF wf_name_tmp, of "Dir (SourceIPA (config r))"]
        RemoveAll_Join_gone [OF wf_name_tmp, of _ "Dir (SourceIPA (config r))"]
      by (auto simp: Resign_def Let_def split: result.splits prod.splits)
    then show ?thesis by blast
  qed
qed

text \<open>
  Claim C8, as stated, fails for a source of unrecognized extension: \<open>validate\<close> accepts
  it, \<open>setupDirectories\<close> creates the working directories, and only \<open>extractApp\<close>
  refuses the extension. When \<open>Resign\<close> has returned, the user's own \<open>tmp\<close> directory
  beside the source is gone with what it held.
\<close>

theorem Resign_unsupported_extension_counterexample:
  "validate (NewResigner notes_config None) notes_disk = None
   \<and> fst (Resign sys_ok (NewResigner notes_config None) (start_world notes_disk))
       = Err (Wrapf ''failed to extract app: ''
               (Errorf ''unsupported file type: .txt (must be .ipa or .app)''))
   \<and> tmpDir (fst (snd (Resign sys_ok (NewResigner notes_config None) (start_world notes_disk))))
       = ''/d/tmp''
   \<and> Stat (disk (snd (snd (Resign_body sys_ok (NewResigner notes_config None)
                                (start_world notes_disk))))) ''/d/tmp/app'' = Inr (DirNode [])
   \<and> Stat notes_disk ''/d/tmp/keep.txt'' = Inr (FileNode (Raw ''mine''))
   \<and> Stat (disk (snd (snd (Resign sys_ok (NewResigner notes_config None)
                                (start_world notes_disk))))) ''/d/tmp/keep.txt''
       = Inl (PathError ''stat'' ''/d/tmp/keep.txt'' ENOENT)"
  by code_simp

lemma validate_invalid:
  "invalid_config (config r) d \<Longrightarrow> \<exists>e. validate r d = Some e"
  by (auto simp: invalid_config_def validate_def Let_def)

lemma Resign_validate_fails:
  "tmpDir r = [] \<Longrightarrow> validate r (disk w) = Some e \<Longrightarrow> Resign sys r w = (Err e, r, w)"
  by (simp add: Resign_def Resign_body_def)

lemma extractApp_unsupported:
  "ToLower (Ext (SourceIPA (config r))) \<noteq> ''.ipa'' \<Longrightarrow>
   ToLower (Ext (SourceIPA (config r))) \<noteq> ''.app'' \<Longrightarrow>
   extractApp r w =
     (Err (Errorf (''unsupported file type: '' @ ToLower (Ext (SourceIPA (config r)))
                   @ '' (must be .ipa or .app)'')), w)"
  by (simp add: extractApp_def Let_def)

text \<open>
  Claim C8, amended. For a resigner with no temporary directory yet: when a mandatory
  field (source path or certificate) is missing, or the source, provisioning profile
  or entitlements path does not exist, \<open>Resign\<close> returns the error of \<open>validate\<close> and
  leaves the resigner and the whole world (disk, commands, messages) as they were. A
  source path of unrecognized extension passes validation: if the callback does not
  panic, \<open>Resign\<close> fails either in \<open>setupDirectories\<close> (nothing created) or in
  \<open>extractApp\<close> with ``unsupported file type'', after the working directories were
  created; the temporary root is then removed again.
\<close>

theorem Resign_validation:
  assumes fresh: "tmpDir r = []"
  shows "(invalid_config (config r) (disk w) \<longrightarrow>
            (\<exists>e. validate r (disk w) = Some e \<and> Resign sys r w = (Err e, r, w)))
       \<and> (validate r (disk w) = None \<and> never_panics r
            \<and> ToLower (Ext (SourceIPA (config r))) \<noteq> ''.ipa''
            \<and> ToLower (Ext (SourceIPA (config r))) \<noteq> ''.app'' \<longrightarrow>
            (\<exists>e r' w'. Resign sys r w = (Err e, r', w')
               \<and> ((\<exists>e'. e = Wrapf ''failed to setup directories: '' e' \<and> r' = r
                        \<and> disk w' = disk w)
                  \<or> (e = Wrapf ''failed to extract app: ''
                           (Errorf (''unsupported file type: ''
                              @ ToLower (Ext (SourceIPA (config r)))
                              @ '' (must be .ipa or .app)''))
                      \<and> tmpDir r' = Join (Dir (SourceIPA (config r))) ''tmp''
                      \<and> (\<exists>d. MkdirAll (disk w) (Join (tmpDir r') ''app'') = Inr d
                               \<and> disk w' = RemoveAll d (tmpDir r'))))))"
proof (intro conjI impI)
  assume "invalid_config (config r) (disk w)"
  then obtain e where "validate r (disk w) = Some e"
    using validate_invalid by blast
  with fresh show "\<exists>e. validate r (disk w) = Some e \<and> Resign sys r w = (Err e, r, w)"
    by (simp add: Resign_validate_fails)
next
  assume a: "validate r (disk w) = None \<and> never_panics r
            \<and> ToLower (Ext (SourceIPA (config r))) \<noteq> ''.ipa''
            \<and> ToLower (Ext (SourceIPA (config r))) \<noteq> ''.app''"
  let ?T = "Join (Dir (SourceIPA (config r))) ''tmp''"
  show "\<exists>e r' w'. Resign sys r w = (Err e, r', w')
               \<and> ((\<exists>e'. e = Wrapf ''failed to setup directories: '' e' \<and> r' = r
                        \<and> disk w' = disk w)
                  \<or> (e = Wrapf ''failed to extract app: ''
                           (Errorf (''unsupported file type: ''
                              @ ToLower (Ext (SourceIPA (config r)))
                              @ '' (must be .ipa or .app)''))
                      \<and> tmpDir r' = Join (Dir (SourceIPA (config r))) ''tmp''
                      \<and> (\<exists>d. MkdirAll (disk w) (Join (tmpDir r') ''app'') = Inr d
                               \<and> disk w' = RemoveAll d (tmpDir r'))))"
  proof (cases "MkdirAll (disk w) (Join ?T ''app'')")
    case (Inl e')
    with a fresh show ?thesis
      by (simp add: Resign_def Resign_body_def logProgress_never_panics
          setupDirectories_def Let_def)
  next
    case (Inr d)
    with a fresh show ?thesis
      using Join_name_not_Nil [OF wf_name_tmp, of "Dir (SourceIPA (config r))"]
      by (simp add: Resign_def Resign_body_def logProgress_never_panics
          setupDirectories_def Let_def extractApp_unsupported never_panics_def)
  qed
qed

text \<open>
  Claim C7 at a callback that panics on every message but the first of a run: the
  panic of the body is recovered, but the deferred function then calls \<open>logProgress\<close>,
  the callback panics again, and this second panic leaves \<open>Resign\<close>. The statement
  that removes the temporary directory is not reached: the directory is still there.
\<close>

theorem Resign_panic_in_deferred_call:
  "fst (Resign sys_ok (NewResigner two_apps_config (Some panicky)) (start_world two_apps_disk))
     = Panic ''observer failed''
   \<and> tmpDir (fst (snd (Resign sys_ok (NewResigner two_apps_config (Some panicky))
                          (start_world two_apps_disk)))) = ''/d/tmp''
   \<and> Stat (disk (snd (snd (Resign sys_ok (NewResigner two_apps_config (Some panicky))
                          (start_world two_apps_disk))))) ''/d/tmp'' = Inr (DirNode [(''app'', DirNode [])])
   \<and> delivered (snd (snd (Resign sys_ok (NewResigner two_apps_config (Some panicky))
                          (start_world two_apps_disk))))
     = [''Start (re)sign the app...'', ''Extracting IPA file...'',
        ''ERROR: panic occurred: observer failed'']"
  by code_simp

theorem Resign_cleanup_witness:
  "tmpDir (NewResigner two_apps_config None) = []
   \<and> fst (Resign sys_ok (NewResigner two_apps_config None) (start_world two_apps_disk)) = Ok ()
   \<and> tmpDir (fst (snd (Resign sys_ok (NewResigner two_apps_config None)
                          (start_world two_apps_disk)))) = ''/d/tmp''
   \<and> (\<exists>e. Stat (disk (snd (snd (Resign sys_ok (NewResigner two_apps_config None)
                          (start_world two_apps_disk))))) ''/d/tmp'' = Inl e)"
proof -
  let ?r = "NewResigner two_apps_config None"
  let ?X = "Resign sys_ok ?r (start_world two_apps_disk)"
  have fresh: "tmpDir ?r = []" by (simp add: NewResigner_def)
  have run: "?X = (fst ?X, fst (snd ?X), snd (snd ?X))" by simp
  have ok: "fst ?X = Ok ()" by code_simp
  then have returns: "\<forall>v. fst ?X \<noteq> Panic v" by simp
  have t: "Join (Dir (SourceIPA (config ?r))) ''tmp'' = ''/d/tmp''" by code_simp
  show ?thesis
    using Resign_cleanup [OF fresh run returns] fresh ok by (auto simp: t)
qed

theorem Resign_validation_witness:
  "tmpDir (NewResigner (notes_config\<lparr>Certificate := []\<rparr>) None) = []
   \<and> invalid_config (notes_config\<lparr>Certificate := []\<rparr>) notes_disk
   \<and> Resign sys_ok (NewResigner (notes_config\<lparr>Certificate := []\<rparr>) None) (start_world notes_disk)
       = (Err (Errorf ''certificate is required''),
          NewResigner (notes_config\<lparr>Certificate := []\<rparr>) None, start_world notes_disk)
   \<and> validate (NewResigner notes_config None) notes_disk = None
   \<and> never_panics (NewResigner notes_config None)
   \<and> ToLower (Ext (SourceIPA notes_config)) = ''.txt''
   \<and> (\<exists>e. fst (Resign sys_ok (NewResigner notes_config None) (start_world notes_disk)) = Err e)"
proof -
  let ?r = "NewResigner (notes_config\<lparr>Certificate := []\<rparr>) None"
  let ?r2 = "NewResigner notes_config None"
  let ?w = "start_world notes_disk"
  have fresh: "tmpDir ?r = []" by (simp add: NewResigner_def)
  have fresh2: "tmpDir ?r2 = []" by (simp add: NewResigner_def)
  have d: "disk ?w = notes_disk" by (simp add: start_world_def)
  have c: "config ?r = notes_config\<lparr>Certificate := []\<rparr>" "config ?r2 = notes_config"
    by (simp_all add: NewResigner_def)
  have inv: "invalid_config (notes_config\<lparr>Certificate := []\<rparr>) notes_disk"
    by (simp add: invalid_config_def)
  have v: "validate ?r notes_disk = Some (Errorf ''certificate is required'')"
    by code_simp
  have v2: "validate ?r2 notes_disk = None" by code_simp
  have np: "never_panics ?r2" by (simp add: never_panics_def NewResigner_def)
  have ext: "ToLower (Ext (SourceIPA notes_config)) = ''.txt''" by code_simp
  have first: "Resign sys_ok ?r ?w = (Err (Errorf ''certificate is required''), ?r, ?w)"
    using Resign_validation [OF fresh, of ?w sys_ok] inv v by (simp add: d c)
  have second: "\<exists>e. fst (Resign sys_ok ?r2 ?w) = Err e"
    using Resign_validation [OF fresh2, of ?w sys_ok] v2 np ext by (auto simp: d c)
  from fresh inv first v2 np ext second show ?thesis by simp
qed


section \<open>Entitlements given in the configuration\<close>

lemma create_at_lookup_same:
  "create_at p c d = Inr d' \<Longrightarrow> lookup_at d' p = Inr (FileNode c)"
  by (induction p c d arbitrary: d' rule: create_at.induct)
     (auto simp: map_of_put_entry split: option.splits node.splits sum.splits)

lemma create_at_lookup_other:
  "create_at p c d = Inr d' \<Longrightarrow> p \<noteq> q \<Longrightarrow>
   (lookup_at d' q = Inr (FileNode x)) = (lookup_at d q = Inr (FileNode x))"
proof (induction p c d arbitrary: d' q rule: create_at.induct)
  case (1 c nd)
  then show ?case by simp
next
  case (2 e es c d)
  then show ?case by simp
next
  case (3 e c ds)
  then show ?case
    by (cases q; cases "tl q")
       (auto simp: map_of_put_entry split: option.splits node.splits sum.splits if_splits)
next
  case (4 e e' es c ds)
  then show ?case
    by (cases q)
       (auto simp: map_of_put_entry split: option.splits node.splits sum.splits if_splits)
qed

lemma copyFile_content:
  assumes "copyFile src dst d = (None, d')"
  shows "\<exists>c. ReadFile d' dst = Inr c \<and> ReadFile d' src = Inr c
           \<and> (resolve src \<noteq> resolve dst \<longrightarrow> ReadFile d src = Inr c)"
proof -
  from assms obtain opened d1 c where
    s: "Stat d src = Inr opened" and
    w1: "WriteFile d dst (Raw []) = Inr d1" and
    rd: "ReadFile d1 src = Inr c" and
    w2: "WriteFile d1 dst c = Inr d'"
    by (auto simp: copyFile_def split: sum.splits)
  from s have src: "src \<noteq> []" by (auto simp: Stat_def split: if_splits)
  from w1 have dst: "dst \<noteq> []" and c1: "create_at (resolve dst) (Raw []) d = Inr d1"
    by (auto simp: WriteFile_def split: if_splits sum.splits)
  from w2 have c2: "create_at (resolve dst) c d1 = Inr d'"
    by (auto simp: WriteFile_def split: if_splits sum.splits)
  from rd src have l1: "lookup_at d1 (resolve src) = Inr (FileNode c)"
    by (auto simp: ReadFile_def Stat_def split: sum.splits node.splits)
  have a: "lookup_at d' (resolve dst) = Inr (FileNode c)"
    using create_at_lookup_same [OF c2] .
  have b: "lookup_at d' (resolve src) = Inr (FileNode c)"
  proof (cases "resolve src = resolve dst")
    case True
    with a show ?thesis by simp
  next
    case False
    then show ?thesis
      using create_at_lookup_other [OF c2, of "resolve src" c] l1 by auto
  qed
  have e: "lookup_at d (resolve src) = Inr (FileNode c)" if "resolve src \<noteq> resolve dst"
    using create_at_lookup_other [OF c1, of "resolve src" c] l1 that by auto
  from a b e src dst show ?thesis
    by (auto simp: ReadFile_def Stat_def)
qed

text \<open>
  Claim C4. When \<open>Entitlements\<close> is set in the configuration, \<open>extractEntitlements\<close> runs
  no external program at all (so the provisioning profile is never decoded with
  \<open>security cms\<close>); and when it returns a path, this is the working path
  \<open>entitlements.plist\<close> in the temporary directory, whose file has the same content, byte
  for byte, as the input entitlements file. That content is the one the input file had
  before the call whenever the input file is not the working file itself.
\<close>

theorem extractEntitlements_provided:
  assumes given: "Entitlements (config r) \<noteq> []"
    and run: "extractEntitlements sys r appPath w = (res, w')"
  shows "execs w' = execs w
       \<and> (\<forall>p. res = Ok p \<longrightarrow>
            p = Join (tmpDir r) ''entitlements.plist''
          \<and> (\<exists>c. ReadFile (disk w') p = Inr c
                 \<and> ReadFile (disk w') (Entitlements (config r)) = Inr c
                 \<and> (resolve (Entitlements (config r)) \<noteq> resolve p \<longrightarrow>
                       ReadFile (disk w) (Entitlements (config r)) = Inr c)))"
proof -
  let ?m1 = "''Extract entitlements from mobileprovision''"
  let ?m2 = "''Using provided entitlements: '' @ Entitlements (config r)"
  let ?p = "Join (tmpDir r) ''entitlements.plist''"
  obtain x1 w1 where l1: "logProgress r ?m1 w = (x1, w1)" by (cases "logProgress r ?m1 w")
  note k1 = logProgress_world [OF l1]
  show ?thesis
  proof (cases x1)
    case (Ok u)
    obtain err d2 where cp: "copyFile (Entitlements (config r)) ?p (disk w1) = (err, d2)"
      by (cases "copyFile (Entitlements (config r)) ?p (disk w1)")
    show ?thesis
    proof (cases err)
      case None
      obtain x3 w3 where l3: "logProgress r ?m2 (w1\<lparr>disk := d2\<rparr>) = (x3, w3)"
        by (cases "logProgress r ?m2 (w1\<lparr>disk := d2\<rparr>)")
      note k3 = logProgress_world [OF l3]
      from copyFile_content [of "Entitlements (config r)" ?p "disk w1" d2] cp None
      obtain c where "ReadFile d2 ?p = Inr c" "ReadFile d2 (Entitlements (config r)) = Inr c"
        "resolve (Entitlements (config r)) \<noteq> resolve ?p \<longrightarrow>
           ReadFile (disk w1) (Entitlements (config r)) = Inr c"
        by auto
      with run given l1 Ok cp None l3 k1 k3 show ?thesis
        by (cases x3) (auto simp: extractEntitlements_def Let_def)
    next
      case (Some e)
      with run given l1 Ok cp k1 show ?thesis
        by (auto simp: extractEntitlements_def Let_def)
    qed
  next
    case (Err e)
    with run given l1 k1 show ?thesis by (auto simp: extractEntitlements_def Let_def)
  next
    case (Panic v)
    with run given l1 k1 show ?thesis by (auto simp: extractEntitlements_def Let_def)
  qed
qed

theorem extractEntitlements_provided_witness:
  "Entitlements (config (fst (prepared entitled_config entitled_disk))) \<noteq> []
   \<and> fst (extractEntitlements sys_ok (fst (prepared entitled_config entitled_disk))
            ''/d/tmp/app/Payload/A.app'' (snd (prepared entitled_config entitled_disk)))
       = Ok ''/d/tmp/entitlements.plist''
   \<and> ReadFile (disk (snd (extractEntitlements sys_ok (fst (prepared entitled_config entitled_disk))
            ''/d/tmp/app/Payload/A.app'' (snd (prepared entitled_config entitled_disk)))))
         ''/d/tmp/entitlements.plist'' = Inr (Raw ''<plist>get-task-allow</plist>'')
   \<and> execs (snd (extractEntitlements sys_ok (fst (prepared entitled_config entitled_disk))
            ''/d/tmp/app/Payload/A.app'' (snd (prepared entitled_config entitled_disk)))) = []"
proof -
  let ?r = "fst (prepared entitled_config entitled_disk)"
  let ?w = "snd (prepared entitled_config entitled_disk)"
  let ?X = "extractEntitlements sys_ok ?r ''/d/tmp/app/Payload/A.app'' ?w"
  have given: "Entitlements (config ?r) \<noteq> []" by code_simp
  have run: "?X = (fst ?X, snd ?X)" by simp
  have ok: "fst ?X = Ok ''/d/tmp/entitlements.plist''" by code_simp
  have e0: "execs ?w = []" by code_simp
  have src: "ReadFile (disk ?w) (Entitlements (config ?r)) = Inr (Raw ''<plist>get-task-allow</plist>'')"
    by code_simp
  have ne: "resolve (Entitlements (config ?r)) \<noteq> resolve ''/d/tmp/entitlements.plist''"
    by code_simp
  show ?thesis
    using extractEntitlements_provided [OF given run] given ok e0 src ne by auto
qed


section \<open>Signing: the commands run by \<open>signComponents\<close>\<close>

lemma run_command_execs:
  "run_command sys argv w = (res, w') \<Longrightarrow> execs w' = execs w @ [argv] \<and> stdout w' = stdout w"
  by (auto simp: run_command_def Let_def)

lemma wrap_codesign_execs:
  "wrap p (codesign sys r c ep w) = (x, w') \<Longrightarrow>
   execs w' = execs w @ [codesign_command r ep c] \<and> (\<forall>v. x \<noteq> Panic v)"
  by (auto simp: codesign_def run_command_def Let_def split: if_splits)

lemma change_extension_identifier_execs:
  assumes "change_extension_identifier sys r c k w = (x, w')"
  shows "\<exists>xs. execs w' = execs w @ xs
       \<and> prefix xs [set_identifier_command (BundleID (config r) @ ''.extra'' @ digits k) c]
       \<and> (\<forall>k'. x = Ok k' \<longrightarrow> k' = Suc k
              \<and> xs = [set_identifier_command (BundleID (config r) @ ''.extra'' @ digits k) c])"
proof -
  let ?cmd = "set_identifier_command (BundleID (config r) @ ''.extra'' @ digits k) c"
  let ?m = "''Changing .appex bundle identifier with: '' @ BundleID (config r) @ ''.extra'' @ digits k"
  let ?m2 = "''Warning: Failed to change bundle ID for '' @ c @ '': '' @ error_text ExitError"
  obtain x1 w1 where l1: "logProgress r ?m w = (x1, w1)" by (cases "logProgress r ?m w")
  note k1 = logProgress_world [OF l1]
  show ?thesis
  proof (cases x1)
    case (Ok u)
    obtain res w2 where rc: "run_command sys ?cmd w1 = (res, w2)"
      by (cases "run_command sys ?cmd w1")
    note k2 = run_command_execs [OF rc]
    obtain x3 w3 where l3: "logProgress r ?m2 w2 = (x3, w3)" by (cases "logProgress r ?m2 w2")
    note k3 = logProgress_world [OF l3]
    have "execs w' = execs w @ [?cmd] \<and> (\<forall>k'. x = Ok k' \<longrightarrow> k' = Suc k)"
      using assms l1 Ok rc k1 k2 l3 k3
      by (cases x3) (auto simp: change_extension_identifier_def Let_def split: if_splits)
    then show ?thesis by auto
  next
    case (Err e)
    with assms l1 k1 show ?thesis
      by (auto simp: change_extension_identifier_def Let_def)
  next
    case (Panic v)
    with assms l1 k1 show ?thesis
      by (auto simp: change_extension_identifier_def Let_def)
  qed
qed

lemma sign_one_execs:
  assumes "and_then (wrap p (codesign sys r c ep w)) (\<lambda>u w5. (Ok k, w5)) = (x, w')"
  shows "execs w' = execs w @ [codesign_command r ep c] \<and> (\<forall>k'. x = Ok k' \<longrightarrow> k' = k)"
proof -
  obtain y w1 where c: "wrap p (codesign sys r c ep w) = (y, w1)"
    by (cases "wrap p (codesign sys r c ep w)")
  from wrap_codesign_execs [OF c] assms c show ?thesis by (cases y) auto
qed

lemma sign_nested_execs:
  assumes "sign_nested sys r ep c k w = (x, w')"
  shows "\<exists>xs. execs w' = execs w @ xs \<and> prefix xs (nested_commands r ep k c)
       \<and> (\<forall>k'. x = Ok k' \<longrightarrow> k' = next_counter r k c \<and> xs = nested_commands r ep k c)"
proof -
  consider (ident) "Ext c = ''.appex''" "BundleID (config r) \<noteq> []"
    | (appex) "Ext c = ''.appex''" "BundleID (config r) = []"
    | (lib) "Ext c \<noteq> ''.appex''" "Ext c = ''.framework'' \<or> Ext c = ''.dylib''"
    | (other) "Ext c \<noteq> ''.appex''" "Ext c \<noteq> ''.framework''" "Ext c \<noteq> ''.dylib''"
    by blast
  then show ?thesis
  proof cases
    case ident
    let ?cmd = "set_identifier_command (BundleID (config r) @ ''.extra'' @ digits k) c"
    obtain y w1 where ch: "change_extension_identifier sys r c k w = (y, w1)"
      by (cases "change_extension_identifier sys r c k w")
    from change_extension_identifier_execs [OF ch] obtain xs where
      n: "execs w1 = execs w @ xs" "prefix xs [?cmd]" and
      ok: "\<forall>k'. y = Ok k' \<longrightarrow> k' = Suc k \<and> xs = [?cmd]" by blast
    show ?thesis
    proof (cases y)
      case (Ok k1)
      with assms ident ch have s: "and_then (wrap (''failed to sign '' @ c @ '': '')
          (codesign sys r c ep w1)) (\<lambda>u w5. (Ok k1, w5)) = (x, w')"
        by (simp add: sign_nested_def Let_def)
      from sign_one_execs [OF s] ok Ok ident n
      have "execs w' = execs w @ nested_commands r ep k c"
        and "\<forall>k'. x = Ok k' \<longrightarrow> k' = next_counter r k c"
        by (auto simp: nested_commands_def next_counter_def)
      then show ?thesis by auto
    next
      case (Err e)
      with assms ident ch have "x = Err e" "w' = w1" by (simp_all add: sign_nested_def Let_def)
      with n ident show ?thesis
        by (auto simp: nested_commands_def intro: prefix_order.trans)
    next
      case (Panic v)
      with assms ident ch have "x = Panic v" "w' = w1" by (simp_all add: sign_nested_def Let_def)
      with n ident show ?thesis
        by (auto simp: nested_commands_def intro: prefix_order.trans)
    qed
  next
    case appex
    with assms have s: "and_then (wrap (''failed to sign '' @ c @ '': '')
          (codesign sys r c ep w)) (\<lambda>u w5. (Ok k, w5)) = (x, w')"
      by (simp add: sign_nested_def Let_def)
    from sign_one_execs [OF s] appex
    have "execs w' = execs w @ nested_commands r ep k c"
      and "\<forall>k'. x = Ok k' \<longrightarrow> k' = next_counter r k c"
      by (auto simp: nested_commands_def next_counter_def)
    then show ?thesis by auto
  next
    case lib
    with assms have s: "and_then (wrap (''failed to sign '' @ c @ '': '')
          (codesign sys r c ep w)) (\<lambda>u w5. (Ok k, w5)) = (x, w')"
      by (auto simp: sign_nested_def Let_def)
    from sign_one_execs [OF s] lib
    have "execs w' = execs w @ nested_commands r ep k c"
      and "\<forall>k'. x = Ok k' \<longrightarrow> k' = next_counter r k c"
      by (auto simp: nested_commands_def next_counter_def)
    then show ?thesis by auto
  next
    case other
    with assms show ?thesis
      by (auto simp: sign_nested_def Let_def nested_commands_def next_counter_def)
  qed
qed

lemma sign_nested_loop_execs:
  "sign_nested_loop sys r ep cs k w = (x, w') \<Longrightarrow>
   \<exists>xs. execs w' = execs w @ xs \<and> prefix xs (loop_commands r ep k cs)
      \<and> (\<forall>k'. x = Ok k' \<longrightarrow> xs = loop_commands r ep k cs)"
proof (induction cs arbitrary: k w)
  case Nil
  then show ?case by auto
next
  case (Cons c cs)
  obtain y w1 where st: "sign_nested sys r ep c k w = (y, w1)"
    by (cases "sign_nested sys r ep c k w")
  from sign_nested_execs [OF st] obtain xs where
    n: "execs w1 = execs w @ xs" "prefix xs (nested_commands r ep k c)" and
    ok: "\<forall>k'. y = Ok k' \<longrightarrow> k' = next_counter r k c \<and> xs = nested_commands r ep k c"
    by blast
  show ?case
  proof (cases y)
    case (Ok k1)
    with Cons.prems st have rest: "sign_nested_loop sys r ep cs k1 w1 = (x, w')" by simp
    from ok Ok have k1: "k1 = next_counter r k c"
      and e1: "xs = nested_commands r ep k c" by auto
    from Cons.IH [OF rest] obtain ys where
      m: "execs w' = execs w1 @ ys" "prefix ys (loop_commands r ep k1 cs)" and
      ok': "\<forall>k'. x = Ok k' \<longrightarrow> ys = loop_commands r ep k1 cs" by blast
    from n m e1 k1 ok' show ?thesis
      by (intro exI [of _ "xs @ ys"]) auto
  next
    case (Err e)
    with Cons.prems st have "x = Err e" "w' = w1" by simp_all
    with n show ?thesis by (auto intro: prefix_prefix)
  next
    case (Panic v)
    with Cons.prems st have "x = Panic v" "w' = w1" by simp_all
    with n show ?thesis by (auto intro: prefix_prefix)
  qed
qed

lemma sign_app_loop_execs:
  "sign_app_loop sys r ep cs w = (x, w') \<Longrightarrow>
   \<exists>ys. execs w' = execs w @ ys
      \<and> prefix ys (map (codesign_command r ep) (filter (\<lambda>c. Ext c = ''.app'') cs))
      \<and> (x = Ok () \<longrightarrow> ys = map (codesign_command r ep) (filter (\<lambda>c. Ext c = ''.app'') cs))"
proof (induction cs arbitrary: w)
  case Nil
  then show ?case by auto
next
  case (Cons c cs)
  show ?case
  proof (cases "Ext c = ''.app''")
    case False
    with Cons show ?thesis by simp
  next
    case True
    obtain y w1 where st: "wrap (''failed to sign '' @ c @ '': '') (codesign sys r c ep w) = (y, w1)"
      by (cases "wrap (''failed to sign '' @ c @ '': '') (codesign sys r c ep w)")
    note e1 = wrap_codesign_execs [OF st]
    show ?thesis
    proof (cases y)
      case (Ok u)
      with Cons.prems st True have rest: "sign_app_loop sys r ep cs w1 = (x, w')" by simp
      from Cons.IH [OF rest] e1 True show ?thesis by auto
    next
      case (Err e)
      with Cons.prems st True have "x = Err e" "w' = w1" by simp_all
      with e1 True show ?thesis by auto
    next
      case (Panic v)
      with e1 show ?thesis by simp
    qed
  qed
qed

lemma commands_since_append: "execs w' = execs w @ xs \<Longrightarrow> commands_since w w' = xs"
  by (simp add: commands_since_def)

lemma signComponents_execs:
  assumes run: "signComponents sys r appPath ep w = (x, w')"
    and fc: "findComponents (disk w) appPath = Inr comps"
  shows "\<exists>xs ys. commands_since w w' = xs @ ys
      \<and> prefix xs (loop_commands r ep 0 comps)
      \<and> prefix ys (map (codesign_command r ep) (filter (\<lambda>c. Ext c = ''.app'') comps))
      \<and> (x = Ok () \<longrightarrow> xs = loop_commands r ep 0 comps
            \<and> ys = map (codesign_command r ep) (filter (\<lambda>c. Ext c = ''.app'') comps))"
proof -
  let ?m1 = "''Get list of components and sign with certificate: '' @ Certificate (config r)"
  obtain x1 w1 where l1: "logProgress r ?m1 w = (x1, w1)" by (cases "logProgress r ?m1 w")
  note k1 = logProgress_world [OF l1]
  obtain x2 w2 where l2: "logProgress r ''Sign plugins, frameworks, dylibs'' w1 = (x2, w2)"
    by (cases "logProgress r ''Sign plugins, frameworks, dylibs'' w1")
  note k2 = logProgress_world [OF l2]
  obtain x3 w3 where l3: "sign_nested_loop sys r ep comps 0 w2 = (x3, w3)"
    by (cases "sign_nested_loop sys r ep comps 0 w2")
  from sign_nested_loop_execs [OF l3] obtain xs where
    xs: "execs w3 = execs w2 @ xs" "prefix xs (loop_commands r ep 0 comps)"
      "\<forall>k'. x3 = Ok k' \<longrightarrow> xs = loop_commands r ep 0 comps" by blast
  obtain x4 w4 where l4: "logProgress r ''Sign app'' w3 = (x4, w4)"
    by (cases "logProgress r ''Sign app'' w3")
  note k4 = logProgress_world [OF l4]
  obtain x5 w5 where l5: "sign_app_loop sys r ep comps w4 = (x5, w5)"
    by (cases "sign_app_loop sys r ep comps w4")
  from sign_app_loop_execs [OF l5] obtain ys where
    ys: "execs w5 = execs w4 @ ys"
      "prefix ys (map (codesign_command r ep) (filter (\<lambda>c. Ext c = ''.app'') comps))"
      "x5 = Ok () \<longrightarrow> ys = map (codesign_command r ep) (filter (\<lambda>c. Ext c = ''.app'') comps)"
    by blast
  have fc1: "findComponents (disk w1) appPath = Inr comps" using fc k1 by simp
  show ?thesis
  proof (cases x1)
    case (Ok u1)
    show ?thesis
    proof (cases x2)
      case (Ok u2)
      show ?thesis
      proof (cases x3)
        case (Ok k3)
        show ?thesis
        proof (cases x4)
          case (Ok u4)
          from run l1 \<open>x1 = Ok u1\<close> fc1 l2 \<open>x2 = Ok u2\<close> l3 \<open>x3 = Ok k3\<close> l4 Ok l5
          have "x = x5" "w' = w5" by (simp_all add: signComponents_def)
          with xs ys k1 k2 k4 \<open>x3 = Ok k3\<close> have "commands_since w w' = xs @ ys"
            by (simp add: commands_since_def)
          with xs ys \<open>x3 = Ok k3\<close> \<open>x = x5\<close> show ?thesis
            by (intro exI [of _ xs] exI [of _ ys]) simp
        next
          case (Err e)
          from run l1 \<open>x1 = Ok u1\<close> fc1 l2 \<open>x2 = Ok u2\<close> l3 \<open>x3 = Ok k3\<close> l4 Err
          have "x = Err e" "w' = w4" by (simp_all add: signComponents_def)
          with xs k1 k2 k4 have "commands_since w w' = xs @ []"
            by (simp add: commands_since_def)
          with xs \<open>x = Err e\<close> show ?thesis
            by (intro exI [of _ xs] exI [of _ "[]"]) simp
        next
          case (Panic v)
          from run l1 \<open>x1 = Ok u1\<close> fc1 l2 \<open>x2 = Ok u2\<close> l3 \<open>x3 = Ok k3\<close> l4 Panic
          have "x = Panic v" "w' = w4" by (simp_all add: signComponents_def)
          with xs k1 k2 k4 have "commands_since w w' = xs @ []"
            by (simp add: commands_since_def)
          with xs \<open>x = Panic v\<close> show ?thesis
            by (intro exI [of _ xs] exI [of _ "[]"]) simp
        qed
      next
        case (Err e)
        from run l1 \<open>x1 = Ok u1\<close> fc1 l2 \<open>x2 = Ok u2\<close> l3 Err
        have "x = Err e" "w' = w3" by (simp_all add: signComponents_def)
        with xs k1 k2 have "commands_since w w' = xs @ []"
          by (simp add: commands_since_def)
        with xs \<open>x = Err e\<close> show ?thesis
            by (intro exI [of _ xs] exI [of _ "[]"]) simp
      next
        case (Panic v)
        from run l1 \<open>x1 = Ok u1\<close> fc1 l2 \<open>x2 = Ok u2\<close> l3 Panic
        have "x = Panic v" "w' = w3" by (simp_all add: signComponents_def)
        with xs k1 k2 have "commands_since w w' = xs @ []"
          by (simp add: commands_since_def)
        with xs \<open>x = Panic v\<close> show ?thesis
            by (intro exI [of _ xs] exI [of _ "[]"]) simp
      qed
    next
      case (Err e)
      from run l1 \<open>x1 = Ok u1\<close> fc1 l2 Err
      have "x = Err e" "w' = w2" by (simp_all add: signComponents_def)
      with k1 k2 have "commands_since w w' = [] @ []" by (simp add: commands_since_def)
      with \<open>x = Err e\<close> show ?thesis
      by (intro exI [of _ "[]"]) simp
    next
      case (Panic v)
      from run l1 \<open>x1 = Ok u1\<close> fc1 l2 Panic
      have "x = Panic v" "w' = w2" by (simp_all add: signComponents_def)
      with k1 k2 have "commands_since w w' = [] @ []" by (simp add: commands_since_def)
      with \<open>x = Panic v\<close> show ?thesis
      by (intro exI [of _ "[]"]) simp
    qed
  next
    case (Err e)
    from run l1 Err have "x = Err e" "w' = w1" by (simp_all add: signComponents_def)
    with k1 have "commands_since w w' = [] @ []" by (simp add: commands_since_def)
    with \<open>x = Err e\<close> show ?thesis
      by (intro exI [of _ "[]"]) simp
  next
    case (Panic v)
    from run l1 Panic have "x = Panic v" "w' = w1" by (simp_all add: signComponents_def)
    with k1 have "commands_since w w' = [] @ []" by (simp add: commands_since_def)
    with \<open>x = Panic v\<close> show ?thesis
      by (intro exI [of _ "[]"]) simp
  qed
qed

lemma is_set_identifier_simps [simp]:
  "is_set_identifier (set_identifier_command i b)"
  "\<not> is_set_identifier (codesign_command r ep c)"
  "is_codesign (codesign_command r ep c)"
  "\<not> is_codesign (set_identifier_command i b)"
  by (simp_all add: is_set_identifier_def is_codesign_def set_identifier_command_def
      codesign_command_def)

lemma nested_commands_filter:
  "filter is_set_identifier (nested_commands r ep k c) =
     (if Ext c = ''.appex'' \<and> BundleID (config r) \<noteq> []
      then [set_identifier_command (BundleID (config r) @ ''.extra'' @ digits k) c] else [])"
  by (simp add: nested_commands_def)

lemma filter_identifiers_loop:
  "filter is_set_identifier (loop_commands r ep k cs) =
     (if BundleID (config r) = [] then []
      else map (\<lambda>(i, c). set_identifier_command (BundleID (config r) @ ''.extra'' @ digits i) c)
             (enumerate k (filter (\<lambda>c. Ext c = ''.appex'') cs)))"
  by (induction cs arbitrary: k) (simp_all add: nested_commands_filter next_counter_def)

lemma filter_identifiers_codesign:
  "filter is_set_identifier (map (codesign_command r ep) cs) = []"
  by (induction cs) auto

lemma prefix_filter_Nil: "prefix ys zs \<Longrightarrow> filter P zs = [] \<Longrightarrow> filter P ys = []"
  by (auto simp: prefix_def)

text \<open>
  Claim C5. Let \<open>findComponents\<close> give the components in discovery order. The commands
  that set an identifier during \<open>signComponents\<close> are, in order, a prefix of: for the
  i-th component of extension \<open>.appex\<close> (counted from 0), the identifier
  \<open>BundleID.extra\<close>i written into the \<open>Info.plist\<close> of that component, when \<open>BundleID\<close> is
  set; and no command at all when it is not set. When \<open>signComponents\<close> succeeds they are
  exactly these. For \<open>com.acme.app\<close> and three extensions the identifiers are
  \<open>com.acme.app.extra0\<close>, \<open>com.acme.app.extra1\<close>, \<open>com.acme.app.extra2\<close>.
\<close>

theorem signComponents_extension_identifiers:
  assumes run: "signComponents sys r appPath ep w = (x, w')"
    and fc: "findComponents (disk w) appPath = Inr comps"
  shows "prefix (filter is_set_identifier (commands_since w w')) (extension_identifiers r comps)
       \<and> (x = Ok () \<longrightarrow>
            filter is_set_identifier (commands_since w w') = extension_identifiers r comps)"
proof -
  from signComponents_execs [OF run fc] obtain xs ys where
    c: "commands_since w w' = xs @ ys" and
    xs: "prefix xs (loop_commands r ep 0 comps)" and
    ys: "prefix ys (map (codesign_command r ep) (filter (\<lambda>c. Ext c = ''.app'') comps))" and
    ok: "x = Ok () \<longrightarrow> xs = loop_commands r ep 0 comps" by blast
  have fy: "filter is_set_identifier ys = []"
    using prefix_filter_Nil [OF ys filter_identifiers_codesign] .
  have ex: "filter is_set_identifier (loop_commands r ep 0 comps) = extension_identifiers r comps"
    by (simp add: filter_identifiers_loop extension_identifiers_def)
  have "prefix (filter is_set_identifier xs) (extension_identifiers r comps)"
    using filter_mono_prefix [OF xs, of is_set_identifier] ex by simp
  with c fy ok ex show ?thesis by auto
qed

lemma codesign_ok:
  "codesign_succeeds sys \<Longrightarrow>
   \<exists>w'. codesign sys r c ep w = (Ok (), w') \<and> stdout w' = stdout w"
  by (auto simp: codesign_def run_command_def Let_def codesign_succeeds_def)

lemma identifier_fails_command:
  "identifier_fails sys \<Longrightarrow> \<not> exit_ok (sys (set_identifier_command i b) n d)"
  by (simp add: identifier_fails_def)

lemma logProgress_ok:
  "never_panics r \<Longrightarrow>
   \<exists>w1. logProgress r m w = (Ok (), w1) \<and> disk w1 = disk w \<and> execs w1 = execs w
        \<and> stdout w1 = stdout w @ [m]"
  by (simp add: logProgress_never_panics)

lemma change_extension_identifier_ok:
  assumes np: "never_panics r"
  shows "\<exists>w' ls. change_extension_identifier sys r c k w = (Ok (Suc k), w')
       \<and> stdout w' = stdout w @ ls
       \<and> (identifier_fails sys \<longrightarrow> identifier_warning c \<in> set ls)"
proof -
  let ?cmd = "set_identifier_command (BundleID (config r) @ ''.extra'' @ digits k) c"
  let ?m = "''Changing .appex bundle identifier with: '' @ BundleID (config r) @ ''.extra'' @ digits k"
  from logProgress_ok [OF np, of ?m w] obtain w1 where
    l1: "logProgress r ?m w = (Ok (), w1)" and s1: "stdout w1 = stdout w @ [?m]" by blast
  obtain res w2 where rc: "run_command sys ?cmd w1 = (res, w2)"
    by (cases "run_command sys ?cmd w1")
  then have s2: "stdout w2 = stdout w1"
    and ex: "identifier_fails sys \<longrightarrow> \<not> exit_ok res"
    by (auto simp: run_command_def Let_def identifier_fails_command)
  from logProgress_ok [OF np, of "identifier_warning c" w2] obtain w3 where
    l3: "logProgress r (identifier_warning c) w2 = (Ok (), w3)"
    and s3: "stdout w3 = stdout w2 @ [identifier_warning c]" by blast
  have iw: "''Warning: Failed to change bundle ID for '' @ c @ '': '' @ error_text ExitError
        = identifier_warning c"
    by (simp add: identifier_warning_def)
  show ?thesis
  proof (cases "exit_ok res")
    case True
    with l1 rc ex s1 s2 show ?thesis
      by (simp add: change_extension_identifier_def Let_def)
  next
    case False
    have "change_extension_identifier sys r c k w = (Ok (Suc k), w3)"
      unfolding change_extension_identifier_def Let_def iw
      using l1 rc False l3 by simp
    with s1 s2 s3 show ?thesis by simp
  qed
qed

lemma sign_nested_ok:
  assumes np: "never_panics r" and cs: "codesign_succeeds sys"
  shows "\<exists>k' w' ls. sign_nested sys r ep c k w = (Ok k', w')
       \<and> stdout w' = stdout w @ ls
       \<and> (identifier_fails sys \<and> BundleID (config r) \<noteq> [] \<and> Ext c = ''.appex'' \<longrightarrow>
            identifier_warning c \<in> set ls)"
proof -
  consider (ident) "Ext c = ''.appex''" "BundleID (config r) \<noteq> []"
    | (plain) "Ext c = ''.appex''" "BundleID (config r) = []"
    | (lib) "Ext c \<noteq> ''.appex''" "Ext c = ''.framework'' \<or> Ext c = ''.dylib''"
    | (other) "Ext c \<noteq> ''.appex''" "Ext c \<noteq> ''.framework''" "Ext c \<noteq> ''.dylib''"
    by blast
  then show ?thesis
  proof cases
    case ident
    from change_extension_identifier_ok [OF np, of sys c k w] obtain w1 ls where
      ch: "change_extension_identifier sys r c k w = (Ok (Suc k), w1)"
      and ls: "stdout w1 = stdout w @ ls"
        "identifier_fails sys \<longrightarrow> identifier_warning c \<in> set ls" by blast
    from codesign_ok [OF cs, of r c ep w1] obtain w2 where
      co: "codesign sys r c ep w1 = (Ok (), w2)" "stdout w2 = stdout w1" by blast
    from ident ch co ls show ?thesis by (simp add: sign_nested_def Let_def)
  next
    case plain
    from codesign_ok [OF cs, of r c ep w] obtain w2 where
      co: "codesign sys r c ep w = (Ok (), w2)" "stdout w2 = stdout w" by blast
    from plain co show ?thesis by (simp add: sign_nested_def Let_def)
  next
    case lib
    from codesign_ok [OF cs, of r c ep w] obtain w2 where
      co: "codesign sys r c ep w = (Ok (), w2)" "stdout w2 = stdout w" by blast
    from lib co show ?thesis by (auto simp: sign_nested_def Let_def)
  next
    case other
    then show ?thesis by (simp add: sign_nested_def Let_def)
  qed
qed

lemma sign_nested_loop_ok:
  assumes np: "never_panics r" and cs: "codesign_succeeds sys"
  shows "\<exists>k' w'. sign_nested_loop sys r ep cs k w = (Ok k', w')
       \<and> set (stdout w) \<subseteq> set (stdout w')
       \<and> (identifier_fails sys \<and> BundleID (config r) \<noteq> [] \<longrightarrow>
            (\<forall>c \<in> set cs. Ext c = ''.appex'' \<longrightarrow> identifier_warning c \<in> set (stdout w')))"
proof (induction cs arbitrary: k w)
  case Nil
  then show ?case by simp
next
  case (Cons c cs)
  from sign_nested_ok [OF np cs, of ep c k w] obtain k1 w1 ls where
    st: "sign_nested sys r ep c k w = (Ok k1, w1)" and
    ls: "stdout w1 = stdout w @ ls"
      "identifier_fails sys \<and> BundleID (config r) \<noteq> [] \<and> Ext c = ''.appex'' \<longrightarrow>
         identifier_warning c \<in> set ls" by blast
  from Cons.IH [of k1 w1] obtain k2 w2 where
    rest: "sign_nested_loop sys r ep cs k1 w1 = (Ok k2, w2)" and
    sub: "set (stdout w1) \<subseteq> set (stdout w2)" and
    warn: "identifier_fails sys \<and> BundleID (config r) \<noteq> [] \<longrightarrow>
            (\<forall>c \<in> set cs. Ext c = ''.appex'' \<longrightarrow> identifier_warning c \<in> set (stdout w2))"
    by blast
  from st rest have "sign_nested_loop sys r ep (c # cs) k w = (Ok k2, w2)" by simp
  moreover from ls sub have "set (stdout w) \<subseteq> set (stdout w2)" by auto
  moreover from ls sub warn have "identifier_fails sys \<and> BundleID (config r) \<noteq> [] \<longrightarrow>
     (\<forall>c' \<in> set (c # cs). Ext c' = ''.appex'' \<longrightarrow> identifier_warning c' \<in> set (stdout w2))"
    by auto
  ultimately show ?case by blast
qed

lemma sign_app_loop_ok:
  assumes cs: "codesign_succeeds sys"
  shows "\<exists>w'. sign_app_loop sys r ep cs w = (Ok (), w') \<and> stdout w' = stdout w"
proof (induction cs arbitrary: w)
  case Nil
  then show ?case by simp
next
  case (Cons c cs)
  from codesign_ok [OF assms, of r c ep w] obtain w1 where
    co: "codesign sys r c ep w = (Ok (), w1)" "stdout w1 = stdout w" by blast
  from Cons.IH [of w1] Cons.IH [of w] co show ?case by auto
qed

lemma signComponents_ok:
  assumes np: "never_panics r" and cs: "codesign_succeeds sys"
    and fc: "findComponents (disk w) appPath = Inr comps"
  shows "\<exists>w'. signComponents sys r appPath ep w = (Ok (), w')
       \<and> (identifier_fails sys \<and> BundleID (config r) \<noteq> [] \<longrightarrow>
            (\<forall>c \<in> set comps. Ext c = ''.appex'' \<longrightarrow> identifier_warning c \<in> set (stdout w')))"
proof -
  let ?m1 = "''Get list of components and sign with certificate: '' @ Certificate (config r)"
  from logProgress_ok [OF np, of ?m1 w] obtain w1 where
    l1: "logProgress r ?m1 w = (Ok (), w1)" and d1: "disk w1 = disk w" by blast
  from logProgress_ok [OF np, of "''Sign plugins, frameworks, dylibs''" w1] obtain w2 where
    l2: "logProgress r ''Sign plugins, frameworks, dylibs'' w1 = (Ok (), w2)" by blast
  from sign_nested_loop_ok [OF np cs, of ep comps 0 w2] obtain k3 w3 where
    l3: "sign_nested_loop sys r ep comps 0 w2 = (Ok k3, w3)" and
    warn: "identifier_fails sys \<and> BundleID (config r) \<noteq> [] \<longrightarrow>
            (\<forall>c \<in> set comps. Ext c = ''.appex'' \<longrightarrow> identifier_warning c \<in> set (stdout w3))"
    by blast
  from logProgress_ok [OF np, of "''Sign app''" w3] obtain w4 where
    l4: "logProgress r ''Sign app'' w3 = (Ok (), w4)"
    and s4: "stdout w4 = stdout w3 @ [''Sign app'']" by blast
  from sign_app_loop_ok [OF cs, of r ep comps w4] obtain w5 where
    l5: "sign_app_loop sys r ep comps w4 = (Ok (), w5)" and s5: "stdout w5 = stdout w4"
    by blast
  have "signComponents sys r appPath ep w = (Ok (), w5)"
    unfolding signComponents_def using l1 d1 fc l2 l3 l4 l5 by simp
  moreover have "identifier_fails sys \<and> BundleID (config r) \<noteq> [] \<longrightarrow>
            (\<forall>c \<in> set comps. Ext c = ''.appex'' \<longrightarrow> identifier_warning c \<in> set (stdout w5))"
    using warn s4 s5 by simp
  ultimately show ?thesis by blast
qed

lemma never_panics_nil [simp]: "never_panics (NewResigner cfg None)"
  by (simp add: never_panics_def NewResigner_def)

lemma codesign_succeeds_sys_ok [simp]: "codesign_succeeds sys_ok"
  by (simp add: codesign_succeeds_def sys_ok_def)

theorem signComponents_extension_identifiers_witness:
  "findComponents three_extensions_disk ''/App.app''
     = Inr [''/App.app/Frameworks/Core.framework'', ''/App.app/PlugIns/Share.appex'',
            ''/App.app/PlugIns/Today.appex'', ''/App.app/PlugIns/Watch.appex'', ''/App.app'']
   \<and> fst (signComponents sys_ok (NewResigner acme_config None) ''/App.app'' ''/e.plist''
                   (start_world three_extensions_disk)) = Ok ()
   \<and> filter is_set_identifier
        (commands_since (start_world three_extensions_disk)
           (snd (signComponents sys_ok (NewResigner acme_config None) ''/App.app'' ''/e.plist''
                   (start_world three_extensions_disk))))
     = [[''/usr/libexec/PlistBuddy'', ''-c'', ''Set:CFBundleIdentifier com.acme.app.extra0'',
         ''/App.app/PlugIns/Share.appex/Info.plist''],
        [''/usr/libexec/PlistBuddy'', ''-c'', ''Set:CFBundleIdentifier com.acme.app.extra1'',
         ''/App.app/PlugIns/Today.appex/Info.plist''],
        [''/usr/libexec/PlistBuddy'', ''-c'', ''Set:CFBundleIdentifier com.acme.app.extra2'',
         ''/App.app/PlugIns/Watch.appex/Info.plist'']]"
proof -
  let ?r = "NewResigner acme_config None"
  let ?w = "start_world three_extensions_disk"
  let ?X = "signComponents sys_ok ?r ''/App.app'' ''/e.plist'' ?w"
  let ?comps = "[''/App.app/Frameworks/Core.framework'', ''/App.app/PlugIns/Share.appex'',
            ''/App.app/PlugIns/Today.appex'', ''/App.app/PlugIns/Watch.appex'', ''/App.app'']"
  have run: "?X = (fst ?X, snd ?X)" by simp
  have fc0: "findComponents three_extensions_disk ''/App.app'' = Inr ?comps" by code_simp
  have fc: "findComponents (disk ?w) ''/App.app'' = Inr ?comps"
    using fc0 by (simp add: start_world_def)
  have ok: "fst ?X = Ok ()"
  proof -
    from signComponents_ok [OF never_panics_nil [of acme_config] codesign_succeeds_sys_ok fc,
        where ep = "''/e.plist''"]
    obtain w' where "?X = (Ok (), w')" by blast
    then show ?thesis by simp
  qed
  have ids: "extension_identifiers ?r ?comps
     = [[''/usr/libexec/PlistBuddy'', ''-c'', ''Set:CFBundleIdentifier com.acme.app.extra0'',
         ''/App.app/PlugIns/Share.appex/Info.plist''],
        [''/usr/libexec/PlistBuddy'', ''-c'', ''Set:CFBundleIdentifier com.acme.app.extra1'',
         ''/App.app/PlugIns/Today.appex/Info.plist''],
        [''/usr/libexec/PlistBuddy'', ''-c'', ''Set:CFBundleIdentifier com.acme.app.extra2'',
         ''/App.app/PlugIns/Watch.appex/Info.plist'']]"
    by code_simp
  show ?thesis
    using signComponents_extension_identifiers [OF run fc] ok fc0 by (simp add: ids)
qed


section \<open>Failures of the identifier change: fatal for the primary bundle only\<close>

lemma nested_commands_codesign:
  "filter is_codesign (nested_commands r ep k c) =
     (if Ext c = ''.appex'' \<or> Ext c = ''.framework'' \<or> Ext c = ''.dylib''
      then [codesign_command r ep c] else [])"
  by (simp add: nested_commands_def)

lemma filter_codesign_loop:
  "filter is_codesign (loop_commands r ep k cs) =
     map (codesign_command r ep)
       (filter (\<lambda>c. Ext c = ''.appex'' \<or> Ext c = ''.framework'' \<or> Ext c = ''.dylib'') cs)"
  by (induction cs arbitrary: k) (simp_all add: nested_commands_codesign)

lemma filter_codesign_all: "filter is_codesign (map (codesign_command r ep) cs) = map (codesign_command r ep) cs"
  by (induction cs) simp_all

lemma findComponents_shape:
  assumes "findComponents d p = Inr comps"
  shows "filter (\<lambda>c. Ext c = ''.appex'' \<or> Ext c = ''.framework'' \<or> Ext c = ''.dylib'') comps
         @ filter (\<lambda>c. Ext c = ''.app'') comps = comps"
proof -
  from assms obtain root where s: "Stat d p = Inr root"
    by (auto simp: findComponents_def split: sum.splits)
  define cs where "cs = map fst (filter (\<lambda>v. is_component (Ext (fst v), snd v)) (walk p root))"
  have c: "comps = filter (\<lambda>c. Ext c \<noteq> ''.app'') cs @ filter (\<lambda>c. Ext c = ''.app'') cs"
    using assms s by (simp add: findComponents_def foldl_visit_component Let_def cs_def)
  have e: "\<forall>c \<in> set cs. Ext c = ''.app'' \<or> Ext c = ''.appex'' \<or> Ext c = ''.framework''
             \<or> Ext c = ''.dylib''"
    by (auto simp: cs_def is_component_def split: if_splits)
  have n: "filter (\<lambda>c. Ext c = ''.appex'' \<or> Ext c = ''.framework'' \<or> Ext c = ''.dylib'') cs
          = filter (\<lambda>c. Ext c \<noteq> ''.app'') cs"
    using e by (intro filter_cong) auto
  have "filter (\<lambda>c. Ext c = ''.appex'' \<or> Ext c = ''.framework'' \<or> Ext c = ''.dylib'') comps
          = filter (\<lambda>c. Ext c \<noteq> ''.app'') cs"
    unfolding c using n e by (auto simp: filter_empty_conv intro!: filter_cong)
  moreover have "filter (\<lambda>c. Ext c = ''.app'') comps = filter (\<lambda>c. Ext c = ''.app'') cs"
    unfolding c by (auto simp: filter_empty_conv)
  ultimately show ?thesis using c by simp
qed

lemma signComponents_continues:
  assumes np: "never_panics r" and cs: "codesign_succeeds sys"
    and fc: "findComponents (disk w) appPath = Inr comps"
  shows "\<exists>w'. signComponents sys r appPath ep w = (Ok (), w')
       \<and> filter is_codesign (commands_since w w') = map (codesign_command r ep) comps
       \<and> (identifier_fails sys \<and> BundleID (config r) \<noteq> [] \<longrightarrow>
            (\<forall>c \<in> set comps. Ext c = ''.appex'' \<longrightarrow> identifier_warning c \<in> set (stdout w')))"
proof -
  from signComponents_ok [OF np cs fc, of ep] obtain w' where
    run: "signComponents sys r appPath ep w = (Ok (), w')" and
    warn: "identifier_fails sys \<and> BundleID (config r) \<noteq> [] \<longrightarrow>
            (\<forall>c \<in> set comps. Ext c = ''.appex'' \<longrightarrow> identifier_warning c \<in> set (stdout w'))"
    by blast
  from signComponents_execs [OF run fc] have
    "commands_since w w' = loop_commands r ep 0 comps
       @ map (codesign_command r ep) (filter (\<lambda>c. Ext c = ''.app'') comps)"
    by auto
  then have "filter is_codesign (commands_since w w')
      = map (codesign_command r ep)
          (filter (\<lambda>c. Ext c = ''.appex'' \<or> Ext c = ''.framework'' \<or> Ext c = ''.dylib'') comps
           @ filter (\<lambda>c. Ext c = ''.app'') comps)"
    by (simp add: filter_codesign_loop filter_codesign_all)
  with findComponents_shape [OF fc] run warn show ?thesis by simp
qed

lemma application_path_execs:
  "application_path r w = (x, w') \<Longrightarrow> w' = w"
  by (auto simp: application_path_def Let_def split: sum.splits list.splits)

lemma and_then_cases:
  assumes "and_then m k = (x, w')"
  obtains v w1 where "m = (Ok v, w1)" "k v w1 = (x, w')"
  | e where "m = (Err e, w')" "x = Err e"
  | p where "m = (Panic p, w')" "x = Panic p"
proof (cases m)
  case (Pair y w1)
  with assms that show ?thesis by (cases y) auto
qed

lemma of_error_execs: "of_error m w = (x, w') \<Longrightarrow> execs w' = execs w"
  by (cases m; cases "fst m") auto

lemma extractApp_execs:
  assumes "extractApp r w = (x, w')"
  shows "execs w' = execs w"
proof -
  consider (ipa) "ToLower (Ext (SourceIPA (config r))) = ''.ipa''"
    | (app) "ToLower (Ext (SourceIPA (config r))) \<noteq> ''.ipa''"
            "ToLower (Ext (SourceIPA (config r))) = ''.app''"
    | (other) "ToLower (Ext (SourceIPA (config r))) \<noteq> ''.ipa''"
            "ToLower (Ext (SourceIPA (config r))) \<noteq> ''.app''"
    by blast
  then show ?thesis
  proof cases
    case ipa
    with assms have a: "and_then (logProgress r ''Extracting IPA file...'' w) (\<lambda>u w1.
        and_then (of_error (unzip (SourceIPA (config r)) (appDir r) (disk w1)) w1) (\<lambda>u w2.
        application_path r w2)) = (x, w')"
      by (simp add: extractApp_def Let_def)
    from a show ?thesis
    proof (cases rule: and_then_cases)
      case (1 v w1)
      from 1(2) show ?thesis
      proof (cases rule: and_then_cases)
        case (1 v' w2)
        with \<open>logProgress r ''Extracting IPA file...'' w = (Ok v, w1)\<close> show ?thesis
          by (auto dest!: logProgress_world of_error_execs application_path_execs)
      next
        case (2 e)
        with \<open>logProgress r ''Extracting IPA file...'' w = (Ok v, w1)\<close> show ?thesis
          by (auto dest!: logProgress_world of_error_execs)
      next
        case (3 p)
        with \<open>logProgress r ''Extracting IPA file...'' w = (Ok v, w1)\<close> show ?thesis
          by (auto dest!: logProgress_world of_error_execs)
      qed
    next
      case (2 e)
      then show ?thesis by (auto dest!: logProgress_world)
    next
      case (3 p)
      then show ?thesis by (auto dest!: logProgress_world)
    qed
  next
    case app
    let ?k = "\<lambda>u w1.
        let payloadDir = Join (appDir r) ''Payload'' in
        case MkdirAll (disk w1) payloadDir of
          Inl e \<Rightarrow> (Err e, w1)
        | Inr fs1 \<Rightarrow>
            and_then (of_error (copyDir (SourceIPA (config r))
                         (Join payloadDir (Base (SourceIPA (config r)))) fs1) w1) (\<lambda>u w2.
            application_path r w2)"
    from app assms have a: "and_then (logProgress r ''Copying .app file...'' w) ?k = (x, w')"
      by (simp add: extractApp_def Let_def)
    from a show ?thesis
    proof (cases rule: and_then_cases)
      case (1 v w1)
      note l = logProgress_world [OF 1(1)]
      show ?thesis
      proof (cases "MkdirAll (disk w1) (Join (appDir r) ''Payload'')")
        case (Inl e)
        with 1 l show ?thesis by (simp add: Let_def)
      next
        case (Inr fs1)
        with 1(2) have b: "and_then (of_error (copyDir (SourceIPA (config r))
                         (Join (Join (appDir r) ''Payload'') (Base (SourceIPA (config r)))) fs1) w1)
                    (\<lambda>u w2. application_path r w2) = (x, w')"
          by (simp add: Let_def)
        from b l show ?thesis
          by (cases rule: and_then_cases)
             (auto dest!: of_error_execs application_path_execs)
      qed
    next
      case (2 e)
      then show ?thesis by (auto dest!: logProgress_world)
    next
      case (3 p)
      then show ?thesis by (auto dest!: logProgress_world)
    qed
  next
    case other
    with assms show ?thesis by (simp add: extractApp_def Let_def)
  qed
qed

lemma handleMobileProvision_execs:
  assumes "handleMobileProvision r appPath w = (x, w')"
  shows "execs w' = execs w"
proof (cases "MobileProvision (config r) = []")
  case True
  with assms show ?thesis by (auto simp: handleMobileProvision_def dest!: logProgress_world)
next
  case False
  with assms have a: "and_then
      (logProgress r ''Copying provisioning profile into application payload'' w)
      (\<lambda>u w1. of_error (copyFile (MobileProvision (config r))
                 (Join appPath ''embedded.mobileprovision'') (disk w1)) w1) = (x, w')"
    by (simp add: handleMobileProvision_def Let_def)
  from a show ?thesis
    by (cases rule: and_then_cases) (auto dest!: logProgress_world of_error_execs)
qed

lemma is_primary_identifier_command [simp]:
  "is_primary_identifier r (set_identifier_command (BundleID (config r)) b)"
  by (simp add: is_primary_identifier_def set_identifier_command_def)

lemma extractEntitlements_execs:
  assumes "extractEntitlements sys r appPath w = (x, w')"
  shows "\<exists>xs. execs w' = execs w @ xs
       \<and> (\<forall>c \<in> set xs. \<not> is_codesign c \<and> \<not> is_primary_identifier r c)"
proof (cases "Entitlements (config r) = []")
  case False
  let ?p = "Join (tmpDir r) ''entitlements.plist''"
  let ?k = "\<lambda>u w1.
       and_then (of_error (copyFile (Entitlements (config r)) ?p (disk w1)) w1) (\<lambda>u w2.
       and_then (logProgress r
           (''Using provided entitlements: '' @ Entitlements (config r)) w2) (\<lambda>u w3.
       (Ok ?p, w3)))"
  from False assms have a:
    "and_then (logProgress r ''Extract entitlements from mobileprovision'' w) ?k = (x, w')"
    by (simp add: extractEntitlements_def Let_def)
  have "execs w' = execs w"
    using a
  proof (cases rule: and_then_cases)
    case (1 v w1)
    note l = logProgress_world [OF 1(1)]
    from 1(2) show ?thesis
    proof (cases rule: and_then_cases)
      case (1 v' w2)
      note o = of_error_execs [OF 1(1)]
      from 1(2) l o show ?thesis
        by (cases rule: and_then_cases) (auto dest!: logProgress_world)
    next
      case (2 e)
      with l show ?thesis by (auto dest!: of_error_execs)
    next
      case (3 p)
      with l show ?thesis by (auto dest!: of_error_execs)
    qed
  next
    case (2 e)
    then show ?thesis by (auto dest!: logProgress_world)
  next
    case (3 p)
    then show ?thesis by (auto dest!: logProgress_world)
  qed
  then show ?thesis by simp
next
  case True
  let ?c1 = "[''security'', ''cms'', ''-D'', ''-i'', Join appPath ''embedded.mobileprovision'']"
  let ?c2 = "[''/usr/libexec/PlistBuddy'', ''-x'', ''-c'', ''Print:Entitlements'',
              Join (tmpDir r) ''provisioning.plist'']"
  have n1: "\<not> is_codesign ?c1 \<and> \<not> is_primary_identifier r ?c1"
    and n2: "\<not> is_codesign ?c2 \<and> \<not> is_primary_identifier r ?c2"
    by (simp_all add: is_codesign_def is_primary_identifier_def)
  obtain x1 w1 where l1: "logProgress r ''Extract entitlements from mobileprovision'' w = (x1, w1)"
    by (cases "logProgress r ''Extract entitlements from mobileprovision'' w")
  note k1 = logProgress_world [OF l1]
  have "execs w' = execs w \<or> execs w' = execs w @ [?c1] \<or> execs w' = execs w @ [?c1, ?c2]"
    using assms True l1 k1
    by (cases x1)
       (auto simp: extractEntitlements_def Let_def run_command_def
             split: if_splits sum.splits)
  then show ?thesis
  proof (elim disjE)
    assume "execs w' = execs w"
    then show ?thesis by simp
  next
    assume "execs w' = execs w @ [?c1]"
    with n1 show ?thesis by (intro exI [of _ "[?c1]"]) simp
  next
    assume "execs w' = execs w @ [?c1, ?c2]"
    with n1 n2 show ?thesis by (intro exI [of _ "[?c1, ?c2]"]) simp
  qed
qed

lemma handleBundleID_fails:
  assumes set: "BundleID (config r) \<noteq> []" and fails: "primary_identifier_fails sys r"
    and run: "handleBundleID sys r appPath w = (x, w')"
  shows "(\<forall>u. x \<noteq> Ok u)
       \<and> (execs w' = execs w
          \<or> (execs w' = execs w @ [set_identifier_command (BundleID (config r)) appPath]
               \<and> x = Err ExitError))"
proof -
  let ?m = "''Changing bundle identifier with: '' @ BundleID (config r)"
  obtain x1 w1 where l1: "logProgress r ?m w = (x1, w1)" by (cases "logProgress r ?m w")
  note k1 = logProgress_world [OF l1]
  from fails have f: "\<And>n d. \<not> exit_ok (sys (set_identifier_command (BundleID (config r)) appPath) n d)"
    by (simp add: primary_identifier_fails_def)
  from run set l1 k1 f show ?thesis
    by (cases x1) (auto simp: handleBundleID_def run_command_def Let_def)
qed

lemma and_then_wrap_cases:
  assumes "and_then (wrap t m) k = (x, w')"
  obtains v w1 where "m = (Ok v, w1)" "k v w1 = (x, w')"
  | e where "m = (Err e, w')" "x = Err (Wrapf t e)"
  | p where "m = (Panic p, w')" "x = Panic p"
proof (cases m)
  case (Pair y w1)
  with assms that show ?thesis by (cases y) auto
qed

lemma steps_halt:
  assumes set: "BundleID (config r) \<noteq> []" and fails: "primary_identifier_fails sys r"
    and run: "and_then (wrap t1 (extractApp r w2)) (\<lambda>appPath w3.
              and_then (wrap t2 (handleMobileProvision r appPath w3)) (\<lambda>u w4.
              and_then (wrap t3 (extractEntitlements sys r appPath w4)) (\<lambda>ep w5.
              and_then (wrap t4 (handleBundleID sys r appPath w5)) (\<lambda>u w6.
              K appPath ep w6)))) = (x, w9)"
  shows "(\<forall>u. x \<noteq> Ok u)
       \<and> (\<exists>xs. execs w9 = execs w2 @ xs \<and> (\<forall>c \<in> set xs. \<not> is_codesign c)
              \<and> ((\<exists>c \<in> set xs. is_primary_identifier r c) \<longrightarrow> x = Err (Wrapf t4 ExitError)))"
  using run
proof (cases rule: and_then_wrap_cases)
  case (1 appPath w3)
  note e1 = extractApp_execs [OF 1(1)]
  from 1(2) show ?thesis
  proof (cases rule: and_then_wrap_cases)
    case (1 u w4)
    note e2 = handleMobileProvision_execs [OF 1(1)]
    from 1(2) show ?thesis
    proof (cases rule: and_then_wrap_cases)
      case (1 ep w5)
      from extractEntitlements_execs [OF 1(1)] obtain xs where
        e3: "execs w5 = execs w4 @ xs"
          "\<forall>c \<in> set xs. \<not> is_codesign c \<and> \<not> is_primary_identifier r c" by blast
      from 1(2) show ?thesis
      proof (cases rule: and_then_wrap_cases)
        case (1 u' w6)
        with handleBundleID_fails [OF set fails 1(1)] show ?thesis by simp
      next
        case (2 e)
        from handleBundleID_fails [OF set fails 2(1)] 2(2) e1 e2 e3 show ?thesis
          by (auto simp: is_codesign_def set_identifier_command_def)
      next
        case (3 p)
        from handleBundleID_fails [OF set fails 3(1)] 3(2) e1 e2 e3 show ?thesis
          by (auto simp: is_codesign_def set_identifier_command_def)
      qed
    next
      case (2 e)
      from extractEntitlements_execs [OF 2(1)] 2(2) e1 e2 show ?thesis by auto
    next
      case (3 p)
      from extractEntitlements_execs [OF 3(1)] 3(2) e1 e2 show ?thesis by auto
    qed
  next
    case (2 e)
    with e1 handleMobileProvision_execs [OF 2(1)] show ?thesis by auto
  next
    case (3 p)
    with e1 handleMobileProvision_execs [OF 3(1)] show ?thesis by auto
  qed
next
  case (2 e)
  with extractApp_execs [OF 2(1)] show ?thesis by auto
next
  case (3 p)
  with extractApp_execs [OF 3(1)] show ?thesis by auto
qed

lemma primary_identifier_config:
  "config r1 = config r \<Longrightarrow> primary_identifier_fails sys r1 = primary_identifier_fails sys r"
  "config r1 = config r \<Longrightarrow> is_primary_identifier r1 = is_primary_identifier r"
  by (simp_all add: primary_identifier_fails_def is_primary_identifier_def fun_eq_iff)

lemma Resign_body_halts:
  assumes set: "BundleID (config r) \<noteq> []" and fails: "primary_identifier_fails sys r"
    and body: "Resign_body sys r w = (x, r1, w1)"
  shows "x \<noteq> Ok ()
       \<and> (\<exists>xs. execs w1 = execs w @ xs \<and> (\<forall>c \<in> set xs. \<not> is_codesign c)
              \<and> ((\<exists>c \<in> set xs. is_primary_identifier r c) \<longrightarrow>
                    x = Err (Wrapf ''failed to handle bundle ID: '' ExitError)))"
proof (cases "validate r (disk w)")
  case (Some e)
  with body show ?thesis by (auto simp: Resign_body_def)
next
  case None
  obtain x0 w0 where l0: "logProgress r ''Start (re)sign the app...'' w = (x0, w0)"
    by (cases "logProgress r ''Start (re)sign the app...'' w")
  note k0 = logProgress_world [OF l0]
  show ?thesis
  proof (cases x0)
    case (Ok u)
    obtain e2 r2 w2 where s: "setupDirectories r w0 = (e2, r2, w2)"
      by (cases "setupDirectories r w0")
    then have c2: "config r2 = config r" and ex2: "execs w2 = execs w0"
      by (auto simp: setupDirectories_def Let_def split: sum.splits)
    show ?thesis
    proof (cases e2)
      case (Some e)
      with body None l0 Ok s k0 ex2 show ?thesis by (auto simp: Resign_body_def)
    next
      case None2: None
      let ?X = "and_then (wrap ''failed to extract app: '' (extractApp r2 w2))
                         (\<lambda>appPath w3.
                       and_then (wrap ''failed to handle mobile provision: ''
                                   (handleMobileProvision r2 appPath w3)) (\<lambda>u w4.
                       and_then (wrap ''failed to extract entitlements: ''
                                   (extractEntitlements sys r2 appPath w4))
                         (\<lambda>entitlementsPath w5.
                       and_then (wrap ''failed to handle bundle ID: ''
                                   (handleBundleID sys r2 appPath w5)) (\<lambda>u w6.
                       and_then (wrap ''failed to sign components: ''
                                   (signComponents sys r2 appPath entitlementsPath w6))
                         (\<lambda>u w7.
                       and_then (wrap ''failed to create resigned IPA: ''
                                   (createResignedIPA r2 appPath w7)) (\<lambda>u w8.
                       logProgress r2 ''XReSign FINISHED'' w8))))))"
      obtain y w9 where X: "?X = (y, w9)" by (cases ?X)
      from body None l0 Ok s None2 X have res: "x = y" "w1 = w9"
        by (simp_all add: Resign_body_def)
      from set c2 have set2: "BundleID (config r2) \<noteq> []" by simp
      from fails primary_identifier_config(1) [OF c2, of sys]
      have fails2: "primary_identifier_fails sys r2" by simp
      from steps_halt [OF set2 fails2 X] obtain xs where
        h: "\<forall>u. y \<noteq> Ok u" "execs w9 = execs w2 @ xs" "\<forall>c \<in> set xs. \<not> is_codesign c"
          "(\<exists>c \<in> set xs. is_primary_identifier r2 c) \<longrightarrow>
              y = Err (Wrapf ''failed to handle bundle ID: '' ExitError)" by blast
      have p: "is_primary_identifier r2 = is_primary_identifier r"
        using primary_identifier_config(2) [OF c2] .
      from h(1) res have "x \<noteq> Ok ()" by simp
      moreover from h(2) res k0 ex2 have "execs w1 = execs w @ xs" by simp
      ultimately show ?thesis using h(3,4) res p by (intro conjI exI [of _ xs]) simp_all
    qed
  next
    case (Err e)
    with body None l0 k0 show ?thesis by (auto simp: Resign_body_def)
  next
    case (Panic v)
    with body None l0 k0 show ?thesis by (auto simp: Resign_body_def)
  qed
qed

lemma Resign_halts:
  assumes set: "BundleID (config r) \<noteq> []" and fails: "primary_identifier_fails sys r"
    and run: "Resign sys r w = (x, r', w')"
  shows "x \<noteq> Ok ()
       \<and> filter is_codesign (commands_since w w') = []
       \<and> ((\<exists>c \<in> set (commands_since w w'). is_primary_identifier r c) \<longrightarrow>
             x = Err (Wrapf ''failed to handle bundle ID: '' ExitError))"
proof -
  obtain x1 r1 w1 where body: "Resign_body sys r w = (x1, r1, w1)"
    by (cases "Resign_body sys r w") auto
  from Resign_body_halts [OF set fails body] obtain xs where
    n: "x1 \<noteq> Ok ()" and xs: "execs w1 = execs w @ xs" "\<forall>c \<in> set xs. \<not> is_codesign c"
      "(\<exists>c \<in> set xs. is_primary_identifier r c) \<longrightarrow>
          x1 = Err (Wrapf ''failed to handle bundle ID: '' ExitError)" by blast
  have e: "execs w' = execs w1 \<and> x \<noteq> Ok ()
      \<and> (x1 = Err (Wrapf ''failed to handle bundle ID: '' ExitError) \<longrightarrow> x = x1)"
  proof (cases x1)
    case (Ok u)
    with n show ?thesis by simp
  next
    case (Err e1)
    with run body show ?thesis by (auto simp: Resign_def split: if_splits)
  next
    case (Panic v)
    obtain x2 w2 where l: "logProgress r1 (''ERROR: '' @ error_text (Errorf (''panic occurred: '' @ v))) w1 = (x2, w2)"
      by (cases "logProgress r1 (''ERROR: '' @ error_text (Errorf (''panic occurred: '' @ v))) w1")
    note k = logProgress_world [OF l]
    from run body Panic l k show ?thesis
      by (cases x2) (auto simp: Resign_def Let_def split: if_splits)
  qed
  then have r: "x \<noteq> Ok ()"
    and p: "x1 = Err (Wrapf ''failed to handle bundle ID: '' ExitError) \<longrightarrow> x = x1"
    and e: "execs w' = execs w1" by simp_all
  from e xs have c: "commands_since w w' = xs" by (simp add: commands_since_def)
  from xs(2) have "filter is_codesign xs = []" by (simp add: filter_empty_conv)
  with c r p xs(3) show ?thesis by auto
qed

text \<open>
  Claim C2. (1) When every call setting an identifier fails (so the one of each
  extension does), the callback does not panic and \<open>codesign\<close> succeeds, \<open>signComponents\<close>
  still succeeds: \<open>codesign\<close> is run on every discovered component, in order, and for each
  extension the warning is printed. (2) When the call setting the identifier of the
  primary bundle fails, \<open>Resign\<close> does not succeed and signs nothing; and in every run in
  which that call is made, \<open>Resign\<close> returns the error of \<open>handleBundleID\<close>, wrapped as
  ``failed to handle bundle ID''.
\<close>

theorem identifier_failure_fatal_or_not:
  "(never_panics r \<and> codesign_succeeds sys \<and> identifier_fails sys
      \<and> BundleID (config r) \<noteq> [] \<and> findComponents (disk w) appPath = Inr comps \<longrightarrow>
      (\<exists>w'. signComponents sys r appPath ep w = (Ok (), w')
          \<and> filter is_codesign (commands_since w w') = map (codesign_command r ep) comps
          \<and> (\<forall>c \<in> set comps. Ext c = ''.appex'' \<longrightarrow> identifier_warning c \<in> set (stdout w'))))
   \<and> (BundleID (config r) \<noteq> [] \<and> primary_identifier_fails sys r
      \<and> Resign sys r w = (x, r', w'') \<longrightarrow>
        x \<noteq> Ok ()
      \<and> filter is_codesign (commands_since w w'') = []
      \<and> ((\<exists>c \<in> set (commands_since w w''). is_primary_identifier r c) \<longrightarrow>
             x = Err (Wrapf ''failed to handle bundle ID: '' ExitError)))"
proof (rule conjI)
  show "never_panics r \<and> codesign_succeeds sys \<and> identifier_fails sys
      \<and> BundleID (config r) \<noteq> [] \<and> findComponents (disk w) appPath = Inr comps \<longrightarrow>
      (\<exists>w'. signComponents sys r appPath ep w = (Ok (), w')
          \<and> filter is_codesign (commands_since w w') = map (codesign_command r ep) comps
          \<and> (\<forall>c \<in> set comps. Ext c = ''.appex'' \<longrightarrow> identifier_warning c \<in> set (stdout w')))"
  proof (rule impI)
    assume a: "never_panics r \<and> codesign_succeeds sys \<and> identifier_fails sys
      \<and> BundleID (config r) \<noteq> [] \<and> findComponents (disk w) appPath = Inr comps"
    then have np: "never_panics r" and cs: "codesign_succeeds sys"
      and fc: "findComponents (disk w) appPath = Inr comps" by simp_all
    from signComponents_continues [OF np cs fc, of ep] obtain w' where
      "signComponents sys r appPath ep w = (Ok (), w')"
      "filter is_codesign (commands_since w w') = map (codesign_command r ep) comps"
      "identifier_fails sys \<and> BundleID (config r) \<noteq> [] \<longrightarrow>
            (\<forall>c \<in> set comps. Ext c = ''.appex'' \<longrightarrow> identifier_warning c \<in> set (stdout w'))"
      by blast
    with a show "\<exists>w'. signComponents sys r appPath ep w = (Ok (), w')
          \<and> filter is_codesign (commands_since w w') = map (codesign_command r ep) comps
          \<and> (\<forall>c \<in> set comps. Ext c = ''.appex'' \<longrightarrow> identifier_warning c \<in> set (stdout w'))"
      by (intro exI [of _ w']) simp
  qed
next
  show "BundleID (config r) \<noteq> [] \<and> primary_identifier_fails sys r
      \<and> Resign sys r w = (x, r', w'') \<longrightarrow>
        x \<noteq> Ok ()
      \<and> filter is_codesign (commands_since w w'') = []
      \<and> ((\<exists>c \<in> set (commands_since w w''). is_primary_identifier r c) \<longrightarrow>
             x = Err (Wrapf ''failed to handle bundle ID: '' ExitError))"
  proof (rule impI)
    assume b: "BundleID (config r) \<noteq> [] \<and> primary_identifier_fails sys r
      \<and> Resign sys r w = (x, r', w'')"
    then have s: "BundleID (config r) \<noteq> []" and f: "primary_identifier_fails sys r"
      and run: "Resign sys r w = (x, r', w'')" by simp_all
    from Resign_halts [OF s f run]
    show "x \<noteq> Ok ()
      \<and> filter is_codesign (commands_since w w'') = []
      \<and> ((\<exists>c \<in> set (commands_since w w''). is_primary_identifier r c) \<longrightarrow>
             x = Err (Wrapf ''failed to handle bundle ID: '' ExitError))" .
  qed
qed

lemma identifier_fails_sys_plist_fails [simp]: "identifier_fails sys_plist_fails"
  by (simp add: identifier_fails_def sys_plist_fails_def is_set_identifier_def)

lemma codesign_succeeds_sys_plist_fails [simp]: "codesign_succeeds sys_plist_fails"
proof -
  have "take 2 argv \<noteq> [''/usr/libexec/PlistBuddy'', ''-c'']"
    if "take 1 argv = [''/usr/bin/codesign'']" for argv :: "string list"
    using that by (cases argv) (auto simp: numeral_2_eq_2)
  then show ?thesis
    by (simp add: codesign_succeeds_def sys_plist_fails_def is_codesign_def)
qed

lemma primary_identifier_fails_sys_plist_fails [simp]:
  "primary_identifier_fails sys_plist_fails r"
  by (simp add: primary_identifier_fails_def sys_plist_fails_def set_identifier_command_def)

theorem identifier_failure_fatal_or_not_witness:
  "never_panics (NewResigner acme_config None) \<and> codesign_succeeds sys_plist_fails
   \<and> identifier_fails sys_plist_fails \<and> BundleID (config (NewResigner acme_config None)) \<noteq> []
   \<and> findComponents (disk (start_world three_extensions_disk)) ''/App.app''
        = Inr [''/App.app/Frameworks/Core.framework'', ''/App.app/PlugIns/Share.appex'',
               ''/App.app/PlugIns/Today.appex'', ''/App.app/PlugIns/Watch.appex'', ''/App.app'']
   \<and> fst (signComponents sys_plist_fails (NewResigner acme_config None) ''/App.app''
             ''/e.plist'' (start_world three_extensions_disk)) = Ok ()
   \<and> filter is_codesign
        (commands_since (start_world three_extensions_disk)
          (snd (signComponents sys_plist_fails (NewResigner acme_config None) ''/App.app''
             ''/e.plist'' (start_world three_extensions_disk))))
      = map (codesign_command (NewResigner acme_config None) ''/e.plist'')
          [''/App.app/Frameworks/Core.framework'', ''/App.app/PlugIns/Share.appex'',
           ''/App.app/PlugIns/Today.appex'', ''/App.app/PlugIns/Watch.appex'', ''/App.app'']
   \<and> identifier_warning ''/App.app/PlugIns/Share.appex''
        \<in> set (stdout (snd (signComponents sys_plist_fails (NewResigner acme_config None)
             ''/App.app'' ''/e.plist'' (start_world three_extensions_disk))))
   \<and> primary_identifier_fails sys_plist_fails (NewResigner renamed_config None)
   \<and> BundleID (config (NewResigner renamed_config None)) \<noteq> []
   \<and> fst (Resign sys_plist_fails (NewResigner renamed_config None) (start_world two_apps_disk))
        = Err (Wrapf ''failed to handle bundle ID: '' ExitError)
   \<and> commands_since (start_world two_apps_disk)
        (snd (snd (Resign sys_plist_fails (NewResigner renamed_config None)
                     (start_world two_apps_disk))))
        = [[''security'', ''cms'', ''-D'', ''-i'',
            ''/d/tmp/app/Payload/A.app/embedded.mobileprovision''],
           [''/usr/libexec/PlistBuddy'', ''-x'', ''-c'', ''Print:Entitlements'',
            ''/d/tmp/provisioning.plist''],
           set_identifier_command ''com.acme.app'' ''/d/tmp/app/Payload/A.app'']"
proof -
  let ?r = "NewResigner acme_config None"
  let ?w = "start_world three_extensions_disk"
  let ?comps = "[''/App.app/Frameworks/Core.framework'', ''/App.app/PlugIns/Share.appex'',
               ''/App.app/PlugIns/Today.appex'', ''/App.app/PlugIns/Watch.appex'', ''/App.app'']"
  let ?S = "signComponents sys_plist_fails ?r ''/App.app'' ''/e.plist'' ?w"
  let ?r2 = "NewResigner renamed_config None"
  let ?w2 = "start_world two_apps_disk"
  let ?R = "Resign sys_plist_fails ?r2 ?w2"
  have b1: "BundleID (config ?r) \<noteq> []" by code_simp
  have b2: "BundleID (config ?r2) \<noteq> []" by code_simp
  have fc: "findComponents (disk ?w) ''/App.app'' = Inr ?comps" by code_simp
  have ex: "Ext ''/App.app/PlugIns/Share.appex'' = ''.appex''" by code_simp
  have run: "?R = (fst ?R, fst (snd ?R), snd (snd ?R))" by simp
  have cmds: "commands_since ?w2 (snd (snd ?R))
        = [[''security'', ''cms'', ''-D'', ''-i'',
            ''/d/tmp/app/Payload/A.app/embedded.mobileprovision''],
           [''/usr/libexec/PlistBuddy'', ''-x'', ''-c'', ''Print:Entitlements'',
            ''/d/tmp/provisioning.plist''],
           set_identifier_command ''com.acme.app'' ''/d/tmp/app/Payload/A.app'']" by code_simp
  have prim: "is_primary_identifier ?r2
     (set_identifier_command ''com.acme.app'' ''/d/tmp/app/Payload/A.app'')" by code_simp
  note thm1 = identifier_failure_fatal_or_not [of ?r sys_plist_fails ?w "''/App.app''" ?comps
      "''/e.plist''" "fst ?R" "fst (snd ?R)" "snd (snd ?R)", THEN conjunct1, rule_format]
  note thm2 = identifier_failure_fatal_or_not [of ?r2 sys_plist_fails ?w2 "''/App.app''" ?comps
      "''/e.plist''" "fst ?R" "fst (snd ?R)" "snd (snd ?R)", THEN conjunct2, rule_format]
  have pre: "never_panics ?r \<and> codesign_succeeds sys_plist_fails
      \<and> identifier_fails sys_plist_fails
      \<and> BundleID (config ?r) \<noteq> [] \<and> findComponents (disk ?w) ''/App.app'' = Inr ?comps"
    using b1 fc by simp
  from thm1 [OF pre] obtain w' where
    s: "?S = (Ok (), w')" and
    c: "filter is_codesign (commands_since ?w w') = map (codesign_command ?r ''/e.plist'') ?comps"
    and wn: "\<forall>c \<in> set ?comps. Ext c = ''.appex'' \<longrightarrow> identifier_warning c \<in> set (stdout w')"
    by blast
  have "''/App.app/PlugIns/Share.appex'' \<in> set ?comps" by simp
  with wn ex have wn1: "identifier_warning ''/App.app/PlugIns/Share.appex'' \<in> set (stdout w')"
    by blast
  have pre2: "BundleID (config ?r2) \<noteq> [] \<and> primary_identifier_fails sys_plist_fails ?r2
      \<and> ?R = (fst ?R, fst (snd ?R), snd (snd ?R))"
    using b2 by simp
  from thm2 [OF pre2] cmds prim
  have r: "fst ?R = Err (Wrapf ''failed to handle bundle ID: '' ExitError)" by simp
  from s c wn1 r cmds b1 b2 fc show ?thesis by simp
qed

end
